theory Spec2Isabelle
  imports Complex_Main "HOL-Library.AList"
begin

section \<open>Values of the host language\<close>

text \<open>
  The reconciliation engine of \<^verbatim>\<open>src/services/excelService.ts\<close> works on plain
  JavaScript values. A string is a sequence of UTF-16 code units, modelled as a list of
  natural numbers; \<open>ustr\<close> writes an ASCII literal in that representation.

  A spreadsheet cell (\<^verbatim>\<open>string | number\<close> in \<^verbatim>\<open>types.ts\<close>) is a string or a finite number.
  Numbers are modelled as rationals: the only arithmetic of the engine is the division of
  two small naturals and comparisons between such quotients and the constants 0 and
  0.999, which binary floating point decides as the rationals do for every sheet of
  realistic size. A missing property (\<^verbatim>\<open>undefined\<close>) is \<open>None\<close>.
\<close>

type_synonym jsstring = "nat list"

definition ustr :: "string \<Rightarrow> jsstring" where
  "ustr s = map of_char s"

datatype jsval = Str jsstring | Num rat

text \<open>
  An object used as a record of named cells: the list of its own properties in the
  order \<^verbatim>\<open>Object.keys\<close> enumerates them. Reading a property is \<open>map_of\<close>. Where
  \<^verbatim>\<open>processData\<close> reads a column that a row lacks, it gets \<^verbatim>\<open>undefined\<close> or, for a column
  named like a member of \<^verbatim>\<open>Object.prototype\<close>, that member, whose text is none of the
  status phrases: \<open>None\<close> stands for both. The fixed columns that \<^verbatim>\<open>processData\<close> reads by
  name are no such members.
\<close>

type_synonym jsobj = "(jsstring \<times> jsval) list"

text \<open>
  The result of a numeric conversion (\<^verbatim>\<open>Number(x)\<close>, \<^verbatim>\<open>getTime()\<close>), which may be
  \<^verbatim>\<open>NaN\<close> or infinite.
\<close>

datatype jsnum = NaN | Fin rat | PosInf | NegInf

text \<open>
  Built-ins of the runtime whose results are fixed by the language or the engine and
  not by this repository: \<^verbatim>\<open>String(n)\<close> for a number, \<^verbatim>\<open>new Date(s).getTime()\<close> and
  \<^verbatim>\<open>Number(s)\<close> for a string, the property name that a member inherited from
  \<^verbatim>\<open>Object.prototype\<close> converts to when it is used as a key, and the result of
  \<^verbatim>\<open>toLowerCase\<close> on a string that has a code unit outside the Basic Latin and Latin-1
  Supplement blocks (the case mapping of the Unicode character database, which depends
  on the context of a letter and may change the length of the string). The engine is
  parameterised by them.
\<close>

record js_env =
  numToString :: "rat \<Rightarrow> jsstring"
  dateParse :: "jsstring \<Rightarrow> jsnum"
  stringToNumber :: "jsstring \<Rightarrow> jsnum"
  inheritedName :: "jsstring \<Rightarrow> jsstring"
  lowerCaseUnicode :: "jsstring \<Rightarrow> jsstring"

text \<open>\<^verbatim>\<open>String(val)\<close> and the truthiness of a value (\<^verbatim>\<open>""\<close> and \<^verbatim>\<open>0\<close> are falsy).\<close>

fun toString :: "js_env \<Rightarrow> jsval \<Rightarrow> jsstring" where
  "toString E (Str s) = s"
| "toString E (Num q) = numToString E q"

fun truthy :: "jsval \<Rightarrow> bool" where
  "truthy (Str s) = (s \<noteq> [])"
| "truthy (Num q) = (q \<noteq> 0)"

section \<open>Text normalizer: \<^verbatim>\<open>cleanText\<close>\<close>

text \<open>
  The character class of the first \<^verbatim>\<open>replace\<close>: the code points U+00A0, U+1680,
  U+180E, U+2000 to U+200B, U+202F, U+205F, U+3000 and U+FEFF.
\<close>

definition isSpaceLike :: "nat \<Rightarrow> bool" where
  "isSpaceLike u \<longleftrightarrow>
     u = 0xA0 \<or> u = 0x1680 \<or> u = 0x180E \<or> (0x2000 \<le> u \<and> u \<le> 0x200B) \<or>
     u = 0x202F \<or> u = 0x205F \<or> u = 0x3000 \<or> u = 0xFEFF"

text \<open>
  The white space class of a regular expression, which is also what \<^verbatim>\<open>trim\<close> strips: the
  white space and line terminator code points of the language.
\<close>

definition isWhiteSpace :: "nat \<Rightarrow> bool" where
  "isWhiteSpace u \<longleftrightarrow>
     (9 \<le> u \<and> u \<le> 13) \<or> u = 32 \<or> u = 0xA0 \<or> u = 0x1680 \<or>
     (0x2000 \<le> u \<and> u \<le> 0x200A) \<or> u = 0x2028 \<or> u = 0x2029 \<or>
     u = 0x202F \<or> u = 0x205F \<or> u = 0x3000 \<or> u = 0xFEFF"

definition replaceSpaces :: "jsstring \<Rightarrow> jsstring" where
  "replaceSpaces s = map (\<lambda>u. if isSpaceLike u then 32 else u) s"

text \<open>The second \<^verbatim>\<open>replace\<close>: every maximal run of white space becomes one space.\<close>

function collapseWs :: "jsstring \<Rightarrow> jsstring" where
  "collapseWs [] = []"
| "collapseWs (u # us) =
     (if isWhiteSpace u then 32 # collapseWs (dropWhile isWhiteSpace us)
      else u # collapseWs us)"
  by pat_completeness auto
termination
  by (relation "measure length") (auto simp: less_Suc_eq_le length_dropWhile_le)

definition trim :: "jsstring \<Rightarrow> jsstring" where
  "trim s = rev (dropWhile isWhiteSpace (rev (dropWhile isWhiteSpace s)))"

text \<open>
  \<^verbatim>\<open>toLowerCase\<close>. On a string whose code units all lie in the Basic Latin and Latin-1
  Supplement blocks the case mapping works code unit by code unit: A to Z, and U+00C0
  to U+00DE without the multiplication sign, move up by 32, and nothing else changes.
  On any other string the result is the one of the runtime.
\<close>

definition lowerUnit :: "nat \<Rightarrow> nat" where
  "lowerUnit u =
     (if (65 \<le> u \<and> u \<le> 90) \<or> (0xC0 \<le> u \<and> u \<le> 0xDE \<and> u \<noteq> 0xD7) then u + 32 else u)"

definition isLatin1 :: "jsstring \<Rightarrow> bool" where
  "isLatin1 s \<longleftrightarrow> list_all (\<lambda>u. u < 256) s"

definition toLowerCase :: "js_env \<Rightarrow> jsstring \<Rightarrow> jsstring" where
  "toLowerCase E s = (if isLatin1 s then map lowerUnit s else lowerCaseUnicode E s)"

fun cleanText :: "js_env \<Rightarrow> jsval option \<Rightarrow> jsstring" where
  "cleanText E None = []"
| "cleanText E (Some v) = toLowerCase E (trim (collapseWs (replaceSpaces (toString E v))))"

section \<open>Column alias resolver: \<^verbatim>\<open>normalizeKeys\<close>\<close>

definition COLUMN_ALIASES :: "(jsstring \<times> jsstring) list" where
  "COLUMN_ALIASES = map (\<lambda>(k, c). (ustr k, ustr c))
     [(''Email address'', ''Username (Email)''),
      (''Username'', ''Username (Email)''),
      (''Email'', ''Username (Email)''),
      (''User Email'', ''Username (Email)''),
      (''E-mail'', ''Username (Email)''),
      (''User ID'', ''User/Employee ID''),
      (''Employee ID'', ''User/Employee ID''),
      (''EmployeeID'', ''User/Employee ID''),
      (''UserID'', ''User/Employee ID''),
      (''User/EmployeeID'', ''User/Employee ID''),
      (''ID'', ''User/Employee ID''),
      (''Emp ID'', ''User/Employee ID''),
      (''Display Name'', ''Display Name (Pharmacist name)''),
      (''Pharmacist Name'', ''Display Name (Pharmacist name)''),
      (''Pharmacist'', ''Display Name (Pharmacist name)''),
      (''Full Name'', ''Display Name (Pharmacist name)''),
      (''Name'', ''Display Name (Pharmacist name)''),
      (''Phone'', ''Phone number (Whatsapp)''),
      (''Mobile'', ''Phone number (Whatsapp)''),
      (''Phone Number'', ''Phone number (Whatsapp)''),
      (''Whatsapp'', ''Phone number (Whatsapp)''),
      (''Contact No'', ''Phone number (Whatsapp)''),
      (''Pharmacy ID'', ''Pharmacy No.''),
      (''Pharmacy #'', ''Pharmacy No.''),
      (''Pharmacy Code'', ''Pharmacy No.''),
      (''Supervisor'', ''Supervisor Name''),
      (''Manager'', ''Supervisor Name'')]"

text \<open>
  \<^verbatim>\<open>COLUMN_ALIASES\<close> and the \<^verbatim>\<open>groups\<close> of a pivot table are object literals, so a
  lookup \<^verbatim>\<open>obj[k]\<close> that finds no own property goes on to \<^verbatim>\<open>Object.prototype\<close>. Its
  string-keyed members are listed here; each of them is a function or an object, hence
  truthy.
\<close>

definition objectPrototypeKeys :: "jsstring list" where
  "objectPrototypeKeys = map ustr
     [''constructor'', ''hasOwnProperty'', ''isPrototypeOf'', ''propertyIsEnumerable'',
      ''toLocaleString'', ''toString'', ''valueOf'', ''__proto__'',
      ''__defineGetter__'', ''__defineSetter__'', ''__lookupGetter__'', ''__lookupSetter__'']"

text \<open>
  The name a source key is stored under: the alias of the trimmed key, else (for a
  trimmed key that names an inherited member) the text of that member, else the alias
  of the first table key that equals it up to case, else the trimmed key.
\<close>

definition resolveKey :: "js_env \<Rightarrow> jsstring \<Rightarrow> jsstring" where
  "resolveKey E key =
     (let cleanKey = trim key in
      case map_of COLUMN_ALIASES cleanKey of
        Some canonical \<Rightarrow> canonical
      | None \<Rightarrow>
          if cleanKey \<in> set objectPrototypeKeys then inheritedName E cleanKey
          else (let lowerKey = toLowerCase E cleanKey in
                case find (\<lambda>kc. toLowerCase E (fst kc) = lowerKey) COLUMN_ALIASES of
                  Some aliasMatch \<Rightarrow> snd aliasMatch
                | None \<Rightarrow> cleanKey))"

text \<open>
  The guard \<^verbatim>\<open>if (cleanKey)\<close>: a string is truthy when it is not empty, an inherited
  member always.
\<close>

definition keptKey :: "js_env \<Rightarrow> jsstring \<Rightarrow> bool" where
  "keptKey E key \<longleftrightarrow> resolveKey E key \<noteq> [] \<or> trim key \<in> set objectPrototypeKeys"

definition normalizeStep :: "js_env \<Rightarrow> jsobj \<Rightarrow> jsstring \<times> jsval \<Rightarrow> jsobj" where
  "normalizeStep E newObj kv =
     (let cleanKey = resolveKey E (fst kv); val = snd kv in
      if keptKey E (fst kv) then
        (case map_of newObj cleanKey of
           None \<Rightarrow> AList.update cleanKey val newObj
         | Some old \<Rightarrow>
             if old = Str [] \<and> val \<noteq> Str [] then AList.update cleanKey val newObj
             else newObj)
      else newObj)"

definition normalizeKeys :: "js_env \<Rightarrow> jsobj \<Rightarrow> jsobj" where
  "normalizeKeys E obj = foldl (normalizeStep E) [] obj"

section \<open>Reconciliation: \<^verbatim>\<open>processData\<close>\<close>

definition colEmail :: jsstring where "colEmail = ustr ''Username (Email)''"
definition colDate :: jsstring where "colDate = ustr ''Date''"
definition colDistrict :: jsstring where "colDistrict = ustr ''District''"
definition colCity :: jsstring where "colCity = ustr ''City''"
definition colSupervisor :: jsstring where "colSupervisor = ustr ''Supervisor Name''"
definition colPharmacyNo :: jsstring where "colPharmacyNo = ustr ''Pharmacy No.''"
definition colEmployeeId :: jsstring where "colEmployeeId = ustr ''User/Employee ID''"
definition colSCFHS :: jsstring where "colSCFHS = ustr ''SCFHS''"
definition colDisplayName :: jsstring where
  "colDisplayName = ustr ''Display Name (Pharmacist name)''"
definition colPhone :: jsstring where "colPhone = ustr ''Phone number (Whatsapp)''"

definition TARGET_VALUE_COMPLETED :: jsstring where
  "TARGET_VALUE_COMPLETED = ustr ''completed (achieved pass grade)''"
definition TARGET_VALUE_COMPLETED_SIMPLE :: jsstring where
  "TARGET_VALUE_COMPLETED_SIMPLE = ustr ''completed''"
definition TARGET_VALUE_NOT_COMPLETED :: jsstring where
  "TARGET_VALUE_NOT_COMPLETED = ustr ''not completed''"

text \<open>A \<^verbatim>\<open>Set\<close> keeps its members in the order of their first insertion.\<close>

definition setAdd :: "'a list \<Rightarrow> 'a \<Rightarrow> 'a list" where
  "setAdd s x = (if x \<in> set s then s else s @ [x])"

definition allKeys :: "jsobj list \<Rightarrow> jsstring list" where
  "allKeys combinedLMS = foldl (\<lambda>s row. foldl setAdd s (map fst row)) [] combinedLMS"

definition isLessonCol :: "js_env \<Rightarrow> jsobj list \<Rightarrow> jsstring \<Rightarrow> bool" where
  "isLessonCol E combinedLMS key =
     list_ex (\<lambda>row. let val = cleanText E (map_of row key) in
                val = TARGET_VALUE_COMPLETED \<or>
                val = TARGET_VALUE_NOT_COMPLETED \<or>
                val = TARGET_VALUE_COMPLETED_SIMPLE) combinedLMS"

definition lessonColumns :: "js_env \<Rightarrow> jsobj list \<Rightarrow> jsstring list" where
  "lessonColumns E combinedLMS =
     foldl (\<lambda>s key. if isLessonCol E combinedLMS key then setAdd s key else s) []
       (allKeys combinedLMS)"

definition calculateRate :: "js_env \<Rightarrow> jsstring list \<Rightarrow> jsobj \<Rightarrow> rat" where
  "calculateRate E lessonCols row =
     (if length lessonCols = 0 then 0
      else of_nat (length (filter (\<lambda>colKey. let val = cleanText E (map_of row colKey) in
                                     val = TARGET_VALUE_COMPLETED \<or>
                                     val = TARGET_VALUE_COMPLETED_SIMPLE) lessonCols))
           / of_nat (length lessonCols))"

text \<open>
  The date of a row in the tie-break: \<^verbatim>\<open>new Date(d).getTime() || Number(d) || 0\<close>. A time
  value is the number truncated to an integer, and \<^verbatim>\<open>NaN\<close> beyond 8.64e15 in magnitude;
  \<^verbatim>\<open>NaN\<close> and \<^verbatim>\<open>0\<close> are falsy.
\<close>

fun getTime :: "js_env \<Rightarrow> jsval option \<Rightarrow> jsnum" where
  "getTime E None = NaN"
| "getTime E (Some (Str s)) = dateParse E s"
| "getTime E (Some (Num q)) =
     (if \<bar>q\<bar> \<le> 8640000000000000
      then Fin (of_int (if 0 \<le> q then \<lfloor>q\<rfloor> else \<lceil>q\<rceil>)) else NaN)"

fun toNumber :: "js_env \<Rightarrow> jsval option \<Rightarrow> jsnum" where
  "toNumber E None = NaN"
| "toNumber E (Some (Str s)) = stringToNumber E s"
| "toNumber E (Some (Num q)) = Fin q"

fun truthyNum :: "jsnum \<Rightarrow> bool" where
  "truthyNum NaN = False"
| "truthyNum (Fin q) = (q \<noteq> 0)"
| "truthyNum PosInf = True"
| "truthyNum NegInf = True"

definition resolveDate :: "js_env \<Rightarrow> jsval option \<Rightarrow> jsnum" where
  "resolveDate E d =
     (if truthyNum (getTime E d) then getTime E d
      else if truthyNum (toNumber E d) then toNumber E d
      else Fin 0)"

text \<open>\<^verbatim>\<open>a > b\<close> on numbers.\<close>

fun jsGreater :: "jsnum \<Rightarrow> jsnum \<Rightarrow> bool" where
  "jsGreater (Fin a) (Fin b) = (b < a)"
| "jsGreater (Fin a) NegInf = True"
| "jsGreater PosInf (Fin b) = True"
| "jsGreater PosInf NegInf = True"
| "jsGreater _ _ = False"

record lmsEntry =
  row :: jsobj
  rate :: rat

text \<open>
  A \<^verbatim>\<open>Map\<close> is the list of its entries in insertion order; \<^verbatim>\<open>set\<close> on a key that is
  present replaces the value where it stands, which is what \<open>AList.update\<close> does.
\<close>

definition dedupStep ::
  "js_env \<Rightarrow> jsstring list \<Rightarrow> (jsstring \<times> lmsEntry) list \<Rightarrow> jsobj \<Rightarrow> (jsstring \<times> lmsEntry) list"
  where
  "dedupStep E lessonCols lmsMap r =
     (case map_of r colEmail of
        Some (Str rawEmail) \<Rightarrow>
          if rawEmail = [] then lmsMap
          else
            (let emailKey = cleanText E (Some (Str rawEmail)) in
             if emailKey = [] \<or> emailKey = ustr ''undefined'' then lmsMap
             else
               (let new = \<lparr>row = r, rate = calculateRate E lessonCols r\<rparr> in
                case map_of lmsMap emailKey of
                  Some existing \<Rightarrow>
                    if rate existing < rate new then AList.update emailKey new lmsMap
                    else if rate new = rate existing then
                      (let dateA = resolveDate E (map_of r colDate);
                           dateB = resolveDate E (map_of (row existing) colDate)
                       in if jsGreater dateA dateB then AList.update emailKey new lmsMap
                          else lmsMap)
                    else lmsMap
                | None \<Rightarrow> AList.update emailKey new lmsMap))
      | _ \<Rightarrow> lmsMap)"

definition buildLmsMap :: "js_env \<Rightarrow> jsstring list \<Rightarrow> jsobj list \<Rightarrow> (jsstring \<times> lmsEntry) list" where
  "buildLmsMap E lessonCols combinedLMS = foldl (dedupStep E lessonCols) [] combinedLMS"

definition masterStep :: "js_env \<Rightarrow> (jsstring \<times> jsobj) list \<Rightarrow> jsobj \<Rightarrow> (jsstring \<times> jsobj) list" where
  "masterStep E masterMap r =
     (case map_of r colEmail of
        Some rawEmail \<Rightarrow>
          if truthy rawEmail then AList.update (cleanText E (Some rawEmail)) r masterMap
          else masterMap
      | None \<Rightarrow> masterMap)"

definition buildMasterMap :: "js_env \<Rightarrow> jsobj list \<Rightarrow> (jsstring \<times> jsobj) list" where
  "buildMasterMap E master = foldl (masterStep E) [] master"

text \<open>\<^verbatim>\<open>a || b\<close> where \<open>a\<close> may be \<^verbatim>\<open>undefined\<close>, and \<^verbatim>\<open>masterRow?.f || lmsRow.f || ''\<close>.\<close>

definition orElse :: "jsval option \<Rightarrow> jsval \<Rightarrow> jsval" where
  "orElse a b = (case a of Some v \<Rightarrow> if truthy v then v else b | None \<Rightarrow> b)"

definition mergedField :: "jsobj option \<Rightarrow> jsobj \<Rightarrow> jsstring \<Rightarrow> jsval" where
  "mergedField masterRow lmsRow name =
     orElse (case masterRow of None \<Rightarrow> None | Some m \<Rightarrow> map_of m name)
       (orElse (map_of lmsRow name) (Str []))"

record FinalReportRow =
  District :: jsstring
  City :: jsstring
  Supervisor_Name :: jsstring
  Pharmacy_No :: jsstring
  User_Employee_ID :: jsstring
  Username_Email :: jsstring
  Display_Name :: jsstring
  Phone_number :: jsstring
  SCFHS :: jsstring
  Completion_Rate :: rat

definition mergeRow :: "js_env \<Rightarrow> jsobj option \<Rightarrow> lmsEntry \<Rightarrow> FinalReportRow option" where
  "mergeRow E masterRow lmsEnt =
     (let lmsRow = row lmsEnt;
          completionRate = rate lmsEnt;
          district = mergedField masterRow lmsRow colDistrict;
          city = mergedField masterRow lmsRow colCity;
          supervisor = mergedField masterRow lmsRow colSupervisor;
          pharmacyNo = mergedField masterRow lmsRow colPharmacyNo;
          employeeId = mergedField masterRow lmsRow colEmployeeId;
          scfhs = mergedField masterRow lmsRow colSCFHS;
          displayName = mergedField masterRow lmsRow colDisplayName;
          phone = mergedField masterRow lmsRow colPhone;
          email = mergedField masterRow lmsRow colEmail
      in if truthy employeeId \<or> truthy email \<or> truthy displayName then
           Some \<lparr>District = toString E district,
                 City = toString E city,
                 Supervisor_Name = toString E supervisor,
                 Pharmacy_No = toString E pharmacyNo,
                 User_Employee_ID = toString E employeeId,
                 Username_Email = toString E email,
                 Display_Name = toString E displayName,
                 Phone_number = toString E phone,
                 SCFHS = toString E scfhs,
                 Completion_Rate = completionRate\<rparr>
         else None)"

definition processData :: "js_env \<Rightarrow> jsobj list \<Rightarrow> jsobj list \<Rightarrow> jsobj list \<Rightarrow> FinalReportRow list" where
  "processData E lms1 lms2 master =
     (let combinedLMS = lms1 @ lms2;
          lessonCols = lessonColumns E combinedLMS;
          lmsMap = buildLmsMap E lessonCols combinedLMS;
          masterMap = buildMasterMap E master
      in List.map_filter (\<lambda>(emailKey, lmsEnt). mergeRow E (map_of masterMap emailKey) lmsEnt)
           lmsMap)"

section \<open>Aggregation: the summary and the pivot tables of \<^verbatim>\<open>generateExcelFile\<close>\<close>

text \<open>
  The four data lines of \<^verbatim>\<open>summaryData\<close>, each a count and its share of the total:
  all rows, completed, in progress, not started.
\<close>

definition summaryData :: "FinalReportRow list \<Rightarrow> (nat \<times> rat) list" where
  "summaryData data =
     (let total = length data;
          completed = length (filter (\<lambda>d. 999 / 1000 \<le> Completion_Rate d) data);
          inProgress = length (filter (\<lambda>d. 0 < Completion_Rate d \<and>
                                            Completion_Rate d < 999 / 1000) data);
          notStarted = length (filter (\<lambda>d. Completion_Rate d = 0) data)
      in [(total, 1),
          (completed, if 0 < total then of_nat completed / of_nat total else 0),
          (inProgress, if 0 < total then of_nat inProgress / of_nat total else 0),
          (notStarted, if 0 < total then of_nat notStarted / of_nat total else 0)])"

record groupStats =
  total :: nat
  comp :: nat
  prog :: nat
  notS :: nat

datatype groupField = ByDistrict | BySupervisorName | ByCity

fun groupValue :: "groupField \<Rightarrow> FinalReportRow \<Rightarrow> jsstring" where
  "groupValue ByDistrict d = District d"
| "groupValue BySupervisorName d = Supervisor_Name d"
| "groupValue ByCity d = City d"

definition groupKey :: "groupField \<Rightarrow> FinalReportRow \<Rightarrow> jsstring" where
  "groupKey f d = (if groupValue f d \<noteq> [] then groupValue f d else ustr ''(Blank)'')"

text \<open>
  One round of the loop over \<^verbatim>\<open>data\<close>. When the key names a member of
  \<^verbatim>\<open>Object.prototype\<close>, \<^verbatim>\<open>groups[key]\<close> is that (truthy) member: no group is created
  and the counters are written on the member, so \<^verbatim>\<open>groups\<close> never gets a property
  of that name.
\<close>

definition pivotStep ::
  "groupField \<Rightarrow> (jsstring \<times> groupStats) list \<Rightarrow> FinalReportRow \<Rightarrow> (jsstring \<times> groupStats) list"
  where
  "pivotStep f groups d =
     (let key = groupKey f d in
      if key \<in> set objectPrototypeKeys then groups
      else
        (let g = (case map_of groups key of
                    None \<Rightarrow> \<lparr>total = 0, comp = 0, prog = 0, notS = 0\<rparr>
                  | Some g \<Rightarrow> g);
             g1 = g\<lparr>total := total g + 1\<rparr>;
             g2 = (if 999 / 1000 \<le> Completion_Rate d then g1\<lparr>comp := comp g1 + 1\<rparr>
                   else if 0 < Completion_Rate d \<and> Completion_Rate d < 999 / 1000
                   then g1\<lparr>prog := prog g1 + 1\<rparr>
                   else g1\<lparr>notS := notS g1 + 1\<rparr>)
         in AList.update key g2 groups))"

text \<open>
  \<^verbatim>\<open>Object.entries\<close> lists the own properties of an object in the order of
  \<^verbatim>\<open>OrdinaryOwnPropertyKeys\<close>: first the keys that are array indices (the canonical
  decimal form of an integer below \<open>2\<^sup>3\<^sup>2 - 1\<close>), in ascending numeric order, then
  the other string keys in the order of their creation.
\<close>

definition isDigit :: "nat \<Rightarrow> bool" where
  "isDigit u \<longleftrightarrow> 48 \<le> u \<and> u \<le> 57"

definition indexValue :: "jsstring \<Rightarrow> nat" where
  "indexValue s = foldl (\<lambda>a u. 10 * a + (u - 48)) 0 s"

definition isArrayIndex :: "jsstring \<Rightarrow> bool" where
  "isArrayIndex s \<longleftrightarrow>
     s \<noteq> [] \<and> list_all isDigit s \<and> (s = [48] \<or> hd s \<noteq> 48) \<and> indexValue s < 4294967295"

definition objectEntries :: "(jsstring \<times> 'a) list \<Rightarrow> (jsstring \<times> 'a) list" where
  "objectEntries obj =
     sort_key (\<lambda>p. indexValue (fst p)) (filter (\<lambda>p. isArrayIndex (fst p)) obj)
     @ filter (\<lambda>p. \<not> isArrayIndex (fst p)) obj"

text \<open>
  The data lines of a pivot table (\<^verbatim>\<open>rows\<close> in \<^verbatim>\<open>createPivotTable\<close>, which puts a title
  line and a heading line before them and an empty line after them): \<^verbatim>\<open>sort\<close> is stable
  and its comparator \<^verbatim>\<open>b[1].total - a[1].total\<close> orders by descending total. A line is
  the group name, its four counters and its completion share.
\<close>

definition pivotGroups :: "groupField \<Rightarrow> FinalReportRow list \<Rightarrow> (jsstring \<times> groupStats) list" where
  "pivotGroups f data = foldl (pivotStep f) [] data"

definition createPivotTable ::
  "groupField \<Rightarrow> FinalReportRow list \<Rightarrow> (jsstring \<times> nat \<times> nat \<times> nat \<times> nat \<times> rat) list" where
  "createPivotTable f data =
     map (\<lambda>(key, stats).
            (key, total stats, comp stats, prog stats, notS stats,
             if total stats \<noteq> 0 then of_nat (comp stats) / of_nat (total stats) else 0))
       (sort_key (\<lambda>p. - int (total (snd p))) (objectEntries (pivotGroups f data)))"

section \<open>A sample environment\<close>

text \<open>
  An environment for evaluating the engine on examples: it prints a natural number in
  decimal, parses no string as a date or as a number, gives an inherited member the
  text of a native function, and lower-cases a string with code units outside the
  Latin-1 Supplement block by leaving those code units as they are, which is what the
  runtime does on a script without case such as Arabic.
\<close>

function decimal :: "nat \<Rightarrow> jsstring" where
  "decimal n = (if n < 10 then [48 + n] else decimal (n div 10) @ [48 + n mod 10])"
  by pat_completeness auto
termination
  by (relation "measure id") auto

definition sampleEnv :: js_env where
  "sampleEnv =
     \<lparr>numToString = (\<lambda>q. decimal (nat \<lfloor>q\<rfloor>)),
      dateParse = (\<lambda>s. NaN),
      stringToNumber = (\<lambda>s. NaN),
      inheritedName = (\<lambda>k. ustr ''function '' @ k @ ustr ''() { [native code] }''),
      lowerCaseUnicode = map lowerUnit\<rparr>"

section \<open>Auxiliary notions for the proofs\<close>



text \<open>
  The alias table with its keys in lower case: what the case-insensitive search of
  \<^verbatim>\<open>normalizeKeys\<close> compares with.
\<close>

definition lowerAliases :: "(jsstring \<times> jsstring) list" where
  "lowerAliases = map (\<lambda>kc. (map lowerUnit (fst kc), snd kc)) COLUMN_ALIASES"


text \<open>
  The white space steps of \<^verbatim>\<open>cleanText\<close>, before the change of case: the two replacements
  and the trimming.
\<close>

definition normalizeSpaces :: "jsstring \<Rightarrow> jsstring" where
  "normalizeSpaces s = trim (collapseWs (replaceSpaces s))"

text \<open>
  The precedence rule of the merge in the words of the specification: the master value
  when a master record exists and its value is truthy, else the LMS value when it is
  truthy, else the empty string. \<open>masterValue\<close> is \<open>None\<close> when there is no master record or
  the record lacks the field.
\<close>

definition specPrecedence :: "js_env \<Rightarrow> jsval option \<Rightarrow> jsval option \<Rightarrow> jsstring" where
  "specPrecedence E masterValue lmsValue =
     (let fromLms = (case lmsValue of
                       Some w \<Rightarrow> if truthy w then toString E w else []
                     | None \<Rightarrow> [])
      in case masterValue of
           Some v \<Rightarrow> if truthy v then toString E v else fromLms
         | None \<Rightarrow> fromLms)"

text \<open>The value of a field in the master record found for a key, if any.\<close>

definition masterValueOf :: "jsobj option \<Rightarrow> jsstring \<Rightarrow> jsval option" where
  "masterValueOf masterRow name = (case masterRow of None \<Rightarrow> None | Some m \<Rightarrow> map_of m name)"

text \<open>
  What holds of every entry of the identity map built from the rows \<open>R\<close>: its row is one
  of them, its rate is the score of that row, and its key is the normalized text of the
  row's non-empty string email.
\<close>

definition storedOk :: "js_env \<Rightarrow> jsstring list \<Rightarrow> jsobj set \<Rightarrow> jsstring \<times> lmsEntry \<Rightarrow> bool" where
  "storedOk E lc R p \<longleftrightarrow>
     row (snd p) \<in> R \<and> rate (snd p) = calculateRate E lc (row (snd p)) \<and>
     (\<exists>s. map_of (row (snd p)) colEmail = Some (Str s) \<and> s \<noteq> [] \<and>
          fst p = cleanText E (Some (Str s)))"

section \<open>Worked examples\<close>

text \<open>
  An LMS row with an empty District and a City, and a master row for the same person
  (the email differs in case and spacing) with a District, an empty City and a stale
  precomputed rate; the report row they merge into.
\<close>

definition mergeExampleLms :: "jsobj list" where
  "mergeExampleLms =
     [[(colEmail, Str (ustr ''a@x.com'')), (colDistrict, Str []),
       (colCity, Str (ustr ''Jeddah''))]]"

definition mergeExampleMaster :: "jsobj list" where
  "mergeExampleMaster =
     [[(colEmail, Str (ustr ''A@x.com '')), (colDistrict, Str (ustr ''Riyadh'')),
       (colCity, Str []), (ustr ''Completion Rate'', Num (3 / 10))]]"

definition mergeExampleOut :: FinalReportRow where
  "mergeExampleOut =
     \<lparr>District = ustr ''Riyadh'', City = ustr ''Jeddah'', Supervisor_Name = [],
      Pharmacy_No = [], User_Employee_ID = [], Username_Email = ustr ''A@x.com '',
      Display_Name = [], Phone_number = [], SCFHS = [], Completion_Rate = 0\<rparr>"

text \<open>
  The counters of the group \<open>k\<close> over the rows \<open>data\<close>: how many rows have the group key
  \<open>k\<close>, and how many of them are completed, in progress, and neither.
\<close>

definition statsOf :: "groupField \<Rightarrow> jsstring \<Rightarrow> FinalReportRow list \<Rightarrow> groupStats" where
  "statsOf f k data =
     \<lparr>total = length (filter (\<lambda>d. groupKey f d = k) data),
      comp = length (filter (\<lambda>d. groupKey f d = k \<and> 999 / 1000 \<le> Completion_Rate d) data),
      prog = length (filter (\<lambda>d. groupKey f d = k \<and> \<not> 999 / 1000 \<le> Completion_Rate d \<and>
                                  0 < Completion_Rate d \<and> Completion_Rate d < 999 / 1000) data),
      notS = length (filter (\<lambda>d. groupKey f d = k \<and> \<not> 999 / 1000 \<le> Completion_Rate d \<and>
                                  \<not> (0 < Completion_Rate d \<and> Completion_Rate d < 999 / 1000)) data)\<rparr>"

text \<open>A line of a pivot table, from a group name and its counters.\<close>

definition pivotLine :: "jsstring \<times> groupStats \<Rightarrow> jsstring \<times> nat \<times> nat \<times> nat \<times> nat \<times> rat" where
  "pivotLine p =
     (fst p, total (snd p), comp (snd p), prog (snd p), notS (snd p),
      if total (snd p) \<noteq> 0 then of_nat (comp (snd p)) / of_nat (total (snd p)) else 0)"

text \<open>Two report rows that differ in their District only, for the pivot examples.\<close>

definition pivotRow :: "jsstring \<Rightarrow> rat \<Rightarrow> FinalReportRow" where
  "pivotRow district r =
     \<lparr>District = district, City = [], Supervisor_Name = [], Pharmacy_No = [],
      User_Employee_ID = [], Username_Email = ustr ''a@x.com'', Display_Name = [],
      Phone_number = [], SCFHS = [], Completion_Rate = r\<rparr>"

definition pivotExample :: "FinalReportRow list" where
  "pivotExample =
     [pivotRow (ustr ''Jeddah'') 1, pivotRow [] 0, pivotRow (ustr ''Riyadh'') (1 / 2),
      pivotRow (ustr ''Riyadh'') 1]"

text \<open>
  The collision policy of \<^verbatim>\<open>normalizeKeys\<close> on one canonical name: what is stored after a
  further value arrives, and the value that a sequence of arrivals leaves: the first one
  that is not the empty string, or the empty string when there is none.
\<close>

definition combineValue :: "jsval option \<Rightarrow> jsval \<Rightarrow> jsval option" where
  "combineValue cur v =
     (case cur of
        None \<Rightarrow> Some v
      | Some old \<Rightarrow> if old = Str [] \<and> v \<noteq> Str [] then Some v else Some old)"

definition firstNonEmpty :: "jsval list \<Rightarrow> jsval" where
  "firstNonEmpty vs = (case filter (\<lambda>v. v \<noteq> Str []) vs of [] \<Rightarrow> Str [] | v # _ \<Rightarrow> v)"

definition collisionExample :: jsobj where
  "collisionExample =
     [(ustr ''Email'', Str []), (ustr ''E-MAIL'', Str (ustr ''b@x.com'')),
      (ustr ''username'', Str (ustr ''c@x.com'')), (ustr '' Notes '', Str (ustr ''n''))]"

section \<open>Properties of the text normalizer\<close>



lemma lowerUnit_space: "isSpaceLike u \<Longrightarrow> lowerUnit u = u"
  by (auto simp: lowerUnit_def isSpaceLike_def)









lemma dropWhile_head: "dropWhile P xs = y # ys \<Longrightarrow> \<not> P y"
  by (metis dropWhile_eq_Cons_conv)



















lemma toLowerCase_Nil: "toLowerCase E [] = []"
  by (simp add: toLowerCase_def isLatin1_def)

lemma toLowerCase_latin1: "isLatin1 s \<Longrightarrow> toLowerCase E s = map lowerUnit s"
  by (simp add: toLowerCase_def)

lemma cleanText_Some: "cleanText E (Some v) = toLowerCase E (normalizeSpaces (toString E v))"
  by (simp add: normalizeSpaces_def)

lemma normalizeSpaces_Nil: "normalizeSpaces [] = []"
  by (simp add: normalizeSpaces_def trim_def replaceSpaces_def)

lemma cleanText_empty: "toString E v = [] \<Longrightarrow> cleanText E (Some v) = []"
  by (simp only: cleanText_Some normalizeSpaces_Nil toLowerCase_Nil)









subsection \<open>White space\<close>

















subsection \<open>Change of case\<close>






lemma toLowerCase_sampleEnv: "toLowerCase sampleEnv s = map lowerUnit s"
  by (simp add: toLowerCase_def sampleEnv_def)


subsection \<open>Idempotence and insensitivity to case and to white space\<close>



section \<open>Evaluation of the constants\<close>

text \<open>
  The constants of the engine as lists of code units, and the definitions that unfold when
  the text functions are evaluated on concrete strings.
\<close>

lemmas text_eval =
  trim_def replaceSpaces_def toLowerCase_def isLatin1_def isWhiteSpace_def isSpaceLike_def
  lowerUnit_def

lemmas col_eval =
  colEmail_def [simplified ustr_def, simplified]
  colDate_def [simplified ustr_def, simplified]
  colDistrict_def [simplified ustr_def, simplified]
  colCity_def [simplified ustr_def, simplified]
  colSupervisor_def [simplified ustr_def, simplified]
  colPharmacyNo_def [simplified ustr_def, simplified]
  colEmployeeId_def [simplified ustr_def, simplified]
  colSCFHS_def [simplified ustr_def, simplified]
  colDisplayName_def [simplified ustr_def, simplified]
  colPhone_def [simplified ustr_def, simplified]

lemmas target_eval =
  TARGET_VALUE_COMPLETED_def [simplified ustr_def, simplified]
  TARGET_VALUE_COMPLETED_SIMPLE_def [simplified ustr_def, simplified]
  TARGET_VALUE_NOT_COMPLETED_def [simplified ustr_def, simplified]

section \<open>Lesson columns and the completion score\<close>

lemma set_foldl_setAdd: "set (foldl setAdd s xs) = set s \<union> set xs"
  by (induction xs arbitrary: s) (auto simp: setAdd_def)

lemma distinct_foldl_setAdd: "distinct s \<Longrightarrow> distinct (foldl setAdd s xs)"
  by (induction xs arbitrary: s) (auto simp: setAdd_def)

lemma set_allKeys_gen:
  "set (foldl (\<lambda>s r. foldl setAdd s (map fst r)) s0 rows)
     = set s0 \<union> (\<Union>r \<in> set rows. fst ` set r)"
  by (induction rows arbitrary: s0) (auto simp: set_foldl_setAdd)

lemma set_allKeys: "set (allKeys rows) = (\<Union>r \<in> set rows. fst ` set r)"
  by (simp add: allKeys_def set_allKeys_gen)

lemma distinct_allKeys_gen:
  "distinct s0 \<Longrightarrow> distinct (foldl (\<lambda>s r. foldl setAdd s (map fst r)) s0 rows)"
  by (induction rows arbitrary: s0) (auto simp: distinct_foldl_setAdd)

lemma set_foldl_cond_setAdd:
  "set (foldl (\<lambda>s k. if P k then setAdd s k else s) s0 ks) = set s0 \<union> {k \<in> set ks. P k}"
  by (induction ks arbitrary: s0) (auto simp: setAdd_def)

lemma distinct_foldl_cond_setAdd:
  "distinct s0 \<Longrightarrow> distinct (foldl (\<lambda>s k. if P k then setAdd s k else s) s0 ks)"
  by (induction ks arbitrary: s0) (auto simp: setAdd_def)

lemma distinct_lessonColumns: "distinct (lessonColumns E rows)"
  by (simp add: lessonColumns_def distinct_foldl_cond_setAdd)

lemma isLessonCol_iff:
  "isLessonCol E rows key \<longleftrightarrow>
     (\<exists>r \<in> set rows. cleanText E (map_of r key) \<in>
        {TARGET_VALUE_COMPLETED, TARGET_VALUE_COMPLETED_SIMPLE, TARGET_VALUE_NOT_COMPLETED})"
  by (auto simp: isLessonCol_def list_ex_iff Let_def)

lemma target_nonempty:
  "TARGET_VALUE_COMPLETED \<noteq> []" "TARGET_VALUE_COMPLETED_SIMPLE \<noteq> []"
  "TARGET_VALUE_NOT_COMPLETED \<noteq> []"
  by (simp_all add: TARGET_VALUE_COMPLETED_def TARGET_VALUE_COMPLETED_SIMPLE_def
      TARGET_VALUE_NOT_COMPLETED_def ustr_def)

lemma isLessonCol_key:
  assumes "isLessonCol E rows key"
  shows "key \<in> (\<Union>r \<in> set rows. fst ` set r)"
proof -
  from assms obtain r where r: "r \<in> set rows"
    and c: "cleanText E (map_of r key) \<in>
        {TARGET_VALUE_COMPLETED, TARGET_VALUE_COMPLETED_SIMPLE, TARGET_VALUE_NOT_COMPLETED}"
    unfolding isLessonCol_iff by blast
  have "map_of r key \<noteq> None"
  proof
    assume "map_of r key = None"
    then have "cleanText E (map_of r key) = []" by simp
    with c target_nonempty show False by auto
  qed
  then have "key \<in> fst ` set r" by (simp add: map_of_eq_None_iff)
  with r show ?thesis by blast
qed

text \<open>
  Claim C4. Over the union of all column names of the combined LMS rows, a column is
  a lesson column if and only if at least one row has, under that column, a value
  whose normalized text is one of the three status phrases. A column under which no
  row has such a value is not a lesson column.
\<close>

theorem lessonColumns_iff:
  "key \<in> set (lessonColumns E combinedLMS) \<longleftrightarrow>
     key \<in> (\<Union>r \<in> set combinedLMS. fst ` set r) \<and>
     (\<exists>r \<in> set combinedLMS. cleanText E (map_of r key) \<in>
        {TARGET_VALUE_COMPLETED, TARGET_VALUE_COMPLETED_SIMPLE, TARGET_VALUE_NOT_COMPLETED})"
  by (auto simp: lessonColumns_def set_foldl_cond_setAdd set_allKeys isLessonCol_iff
      simp del: cleanText.simps)

theorem lessonColumns_iff_witness:
  "ustr ''Lesson1'' \<in> set (lessonColumns sampleEnv
      [[(ustr ''Lesson1'', Str (ustr ''Not Completed'')), (ustr ''Notes'', Str (ustr ''hello''))],
       [(ustr ''Lesson1'', Str (ustr ''n/a'')), (ustr ''Notes'', Str (ustr ''none''))]])
   \<and> ustr ''Notes'' \<notin> set (lessonColumns sampleEnv
      [[(ustr ''Lesson1'', Str (ustr ''Not Completed'')), (ustr ''Notes'', Str (ustr ''hello''))],
       [(ustr ''Lesson1'', Str (ustr ''n/a'')), (ustr ''Notes'', Str (ustr ''none''))]])"
  using lessonColumns_iff [of "ustr ''Lesson1''" sampleEnv
      "[[(ustr ''Lesson1'', Str (ustr ''Not Completed'')), (ustr ''Notes'', Str (ustr ''hello''))],
       [(ustr ''Lesson1'', Str (ustr ''n/a'')), (ustr ''Notes'', Str (ustr ''none''))]]"]
    lessonColumns_iff [of "ustr ''Notes''" sampleEnv
      "[[(ustr ''Lesson1'', Str (ustr ''Not Completed'')), (ustr ''Notes'', Str (ustr ''hello''))],
       [(ustr ''Lesson1'', Str (ustr ''n/a'')), (ustr ''Notes'', Str (ustr ''none''))]]"]
  by (simp add: ustr_def text_eval target_eval)

text \<open>
  Claim C5. The score of a row is 0 when there is no lesson column; otherwise it is the
  number of lesson columns whose normalized value is "completed" or "completed (achieved
  pass grade)", divided by the number of lesson columns. It lies between 0 and 1, is 1
  when every lesson column is completed and 0 when none is.
\<close>

theorem calculateRate_score:
  "calculateRate E [] r = 0
   \<and> (lessonCols \<noteq> [] \<longrightarrow>
        calculateRate E lessonCols r =
          of_nat (length (filter (\<lambda>c. cleanText E (map_of r c) = TARGET_VALUE_COMPLETED \<or>
                                     cleanText E (map_of r c) = TARGET_VALUE_COMPLETED_SIMPLE)
                            lessonCols))
          / of_nat (length lessonCols))
   \<and> 0 \<le> calculateRate E lessonCols r \<and> calculateRate E lessonCols r \<le> 1
   \<and> (lessonCols \<noteq> [] \<and>
        (\<forall>c \<in> set lessonCols. cleanText E (map_of r c) = TARGET_VALUE_COMPLETED \<or>
                               cleanText E (map_of r c) = TARGET_VALUE_COMPLETED_SIMPLE)
        \<longrightarrow> calculateRate E lessonCols r = 1)
   \<and> ((\<forall>c \<in> set lessonCols. cleanText E (map_of r c) \<noteq> TARGET_VALUE_COMPLETED \<and>
                               cleanText E (map_of r c) \<noteq> TARGET_VALUE_COMPLETED_SIMPLE)
        \<longrightarrow> calculateRate E lessonCols r = 0)"
proof -
  let ?done = "\<lambda>c. cleanText E (map_of r c) = TARGET_VALUE_COMPLETED \<or>
                   cleanText E (map_of r c) = TARGET_VALUE_COMPLETED_SIMPLE"
  let ?n = "length (filter ?done lessonCols)"
  have eq: "calculateRate E lessonCols r
        = (if lessonCols = [] then 0 else of_nat ?n / of_nat (length lessonCols))"
    by (simp add: calculateRate_def Let_def)
  have le: "?n \<le> length lessonCols" by (rule length_filter_le)
  have 1: "calculateRate E [] r = 0" by (simp add: calculateRate_def)
  have 2: "lessonCols \<noteq> [] \<longrightarrow> calculateRate E lessonCols r = of_nat ?n / of_nat (length lessonCols)"
    using eq by simp
  have 3: "0 \<le> calculateRate E lessonCols r" using eq by simp
  have 4: "calculateRate E lessonCols r \<le> 1"
  proof (cases "lessonCols = []")
    case True
    then show ?thesis using eq by simp
  next
    case False
    then have "(of_nat ?n :: rat) / of_nat (length lessonCols) \<le> 1"
      using le by (simp add: divide_le_eq_1)
    then show ?thesis using eq False by simp
  qed
  have 5: "lessonCols \<noteq> [] \<and> (\<forall>c \<in> set lessonCols. ?done c) \<longrightarrow> calculateRate E lessonCols r = 1"
  proof
    assume a: "lessonCols \<noteq> [] \<and> (\<forall>c \<in> set lessonCols. ?done c)"
    then have "filter ?done lessonCols = lessonCols" by (simp add: filter_id_conv)
    then have "?n = length lessonCols" by simp
    then show "calculateRate E lessonCols r = 1" using eq a by simp
  qed
  have 6: "(\<forall>c \<in> set lessonCols. cleanText E (map_of r c) \<noteq> TARGET_VALUE_COMPLETED \<and>
                               cleanText E (map_of r c) \<noteq> TARGET_VALUE_COMPLETED_SIMPLE)
        \<longrightarrow> calculateRate E lessonCols r = 0"
  proof
    assume "\<forall>c \<in> set lessonCols. cleanText E (map_of r c) \<noteq> TARGET_VALUE_COMPLETED \<and>
                               cleanText E (map_of r c) \<noteq> TARGET_VALUE_COMPLETED_SIMPLE"
    then have "filter ?done lessonCols = []" by (simp add: filter_empty_conv)
    then have "?n = 0" by simp
    then show "calculateRate E lessonCols r = 0" using eq by simp
  qed
  from 1 2 3 4 5 6 show ?thesis by blast
qed

theorem calculateRate_score_witness:
  "calculateRate sampleEnv [ustr ''L1'', ustr ''L2'']
      [(ustr ''L1'', Str (ustr ''Completed'')),
       (ustr ''L2'', Str (ustr ''Completed (achieved pass grade)''))] = 1
   \<and> calculateRate sampleEnv [ustr ''L1'', ustr ''L2'']
      [(ustr ''L1'', Str (ustr ''Not Completed'')), (ustr ''L2'', Num 7)] = 0
   \<and> calculateRate sampleEnv [ustr ''L1'', ustr ''L2'']
      [(ustr ''L1'', Str (ustr ''Completed'')), (ustr ''L2'', Str (ustr ''Not Completed''))] = 1 / 2"
  using calculateRate_score [of sampleEnv
      "[(ustr ''L1'', Str (ustr ''Completed'')),
        (ustr ''L2'', Str (ustr ''Completed (achieved pass grade)''))]"
      "[ustr ''L1'', ustr ''L2'']"]
    calculateRate_score [of sampleEnv
      "[(ustr ''L1'', Str (ustr ''Not Completed'')), (ustr ''L2'', Num 7)]"
      "[ustr ''L1'', ustr ''L2'']"]
    calculateRate_score [of sampleEnv
      "[(ustr ''L1'', Str (ustr ''Completed'')), (ustr ''L2'', Str (ustr ''Not Completed''))]"
      "[ustr ''L1'', ustr ''L2'']"]
  by (simp add: ustr_def text_eval target_eval sampleEnv_def decimal.simps)

lemmas COLUMN_ALIASES_eval = COLUMN_ALIASES_def [simplified ustr_def, simplified]

lemmas lowerAliases_eval =
  lowerAliases_def [unfolded COLUMN_ALIASES_eval, simplified, unfolded lowerUnit_def, simplified]

lemmas objectPrototypeKeys_eval =
  objectPrototypeKeys_def [simplified, unfolded ustr_def, simplified]

lemma ustr_eq_iff: "ustr a = ustr b \<longleftrightarrow> a = b"
  unfolding ustr_def by (rule inj_map_eq_map) (simp add: inj_on_def)

lemma ustr_Nil_iff: "ustr a = [] \<longleftrightarrow> a = []"
  by (simp add: ustr_def)

section \<open>Properties of the column alias resolver\<close>

lemma find_map_of:
  "map_option snd (find (\<lambda>kc. f (fst kc) = l) T) = map_of (map (\<lambda>kc. (f (fst kc), snd kc)) T) l"
  by (induction T) auto

lemma aliases_latin1: "kc \<in> set COLUMN_ALIASES \<Longrightarrow> isLatin1 (fst kc)"
proof -
  have "\<forall>kc \<in> set COLUMN_ALIASES. isLatin1 (fst kc)"
    by (simp add: COLUMN_ALIASES_eval isLatin1_def)
  then show "kc \<in> set COLUMN_ALIASES \<Longrightarrow> isLatin1 (fst kc)" by blast
qed

lemma toLowerCase_alias:
  "kc \<in> set COLUMN_ALIASES \<Longrightarrow> toLowerCase E (fst kc) = map lowerUnit (fst kc)"
  by (simp only: toLowerCase_latin1 aliases_latin1)

lemma find_lowerAliases:
  "map_option snd (find (\<lambda>kc. toLowerCase E (fst kc) = l) COLUMN_ALIASES) = map_of lowerAliases l"
proof -
  have "find (\<lambda>kc. toLowerCase E (fst kc) = l) COLUMN_ALIASES
        = find (\<lambda>kc. map lowerUnit (fst kc) = l) COLUMN_ALIASES"
    by (rule find_cong) (simp_all only: toLowerCase_alias)
  then show ?thesis
    unfolding lowerAliases_def by (simp only: find_map_of)
qed

lemma resolveKey_eval:
  "resolveKey E key =
     (case map_of COLUMN_ALIASES (trim key) of
        Some canonical \<Rightarrow> canonical
      | None \<Rightarrow>
          if trim key \<in> set objectPrototypeKeys then inheritedName E (trim key)
          else (case map_of lowerAliases (toLowerCase E (trim key)) of
                  Some canonical \<Rightarrow> canonical
                | None \<Rightarrow> trim key))"
proof -
  have "(case find (\<lambda>kc. toLowerCase E (fst kc) = l) COLUMN_ALIASES of
           Some aliasMatch \<Rightarrow> snd aliasMatch | None \<Rightarrow> d)
        = (case map_of lowerAliases l of Some canonical \<Rightarrow> canonical | None \<Rightarrow> d)" for l d
    unfolding find_lowerAliases [of E, symmetric] by (simp split: option.splits)
  then show ?thesis
    unfolding resolveKey_def Let_def by (simp split: option.split)
qed

lemma normalizeStep_kept:
  "resolveKey E k \<noteq> [] \<Longrightarrow>
   normalizeStep E newObj (k, v) =
     (case map_of newObj (resolveKey E k) of
        None \<Rightarrow> AList.update (resolveKey E k) v newObj
      | Some old \<Rightarrow>
          if old = Str [] \<and> v \<noteq> Str [] then AList.update (resolveKey E k) v newObj
          else newObj)"
  by (simp add: normalizeStep_def keptKey_def Let_def)

lemmas resolve_eval =
  resolveKey_eval COLUMN_ALIASES_eval lowerAliases_eval objectPrototypeKeys_eval text_eval
  ustr_def

section \<open>The end-to-end scenario\<close>

lemma resolveKey_email: "resolveKey E (ustr ''email'') = ustr ''Username (Email)''"
  by (simp add: resolve_eval)

lemma resolveKey_Date: "resolveKey E (ustr ''Date'') = ustr ''Date''"
  by (simp add: resolve_eval)

lemma resolveKey_Lesson1: "resolveKey E (ustr ''Lesson1'') = ustr ''Lesson1''"
  by (simp add: resolve_eval)

lemma resolveKey_Lesson2: "resolveKey E (ustr ''Lesson2'') = ustr ''Lesson2''"
  by (simp add: resolve_eval)

lemma resolveKey_Username_Email:
  "resolveKey E (ustr ''Username (Email)'') = ustr ''Username (Email)''"
  by (simp add: resolve_eval)

lemma resolveKey_District: "resolveKey E (ustr ''District'') = ustr ''District''"
  by (simp add: resolve_eval)

lemmas scenario_keys =
  resolveKey_email resolveKey_Date resolveKey_Lesson1 resolveKey_Lesson2
  resolveKey_Username_Email resolveKey_District

lemma normalizeKeys_sheet:
  "normalizeKeys E
     [(ustr ''email'', e), (ustr ''Date'', d), (ustr ''Lesson1'', l1), (ustr ''Lesson2'', l2)]
   = [(ustr ''Username (Email)'', e), (ustr ''Date'', d), (ustr ''Lesson1'', l1),
      (ustr ''Lesson2'', l2)]"
  by (simp add: normalizeKeys_def normalizeStep_kept scenario_keys ustr_eq_iff ustr_Nil_iff)

lemma normalizeKeys_master:
  "normalizeKeys E [(ustr ''Username (Email)'', e), (ustr ''District'', d)]
   = [(ustr ''Username (Email)'', e), (ustr ''District'', d)]"
  by (simp add: normalizeKeys_def normalizeStep_kept scenario_keys ustr_eq_iff ustr_Nil_iff)

lemmas processData_eval =
  processData_def lessonColumns_def allKeys_def setAdd_def isLessonCol_def buildLmsMap_def
  dedupStep_def calculateRate_def buildMasterMap_def masterStep_def mergeRow_def
  mergedField_def orElse_def List.map_filter_def resolveDate_def
  col_eval target_eval text_eval Let_def ustr_def

text \<open>
  Claim C1. LMS sheet A holds one row with email "a@x.com", Date "2024-01-01", Lesson1
  "Completed" and Lesson2 "Not Completed"; LMS sheet B holds one row with email
  "A@X.com", Date "2024-02-01" and both lessons "Completed"; the master sheet holds one
  row with Username (Email) "a@x.com" and District "Riyadh". After alias resolution of
  each raw row, \<^verbatim>\<open>processData\<close> returns exactly one row: its District is "Riyadh", its
  email is the master's, its other text fields are empty and its Completion Rate is 1.
\<close>

theorem processData_scenario:
  "processData E
     [normalizeKeys E
        [(ustr ''email'', Str (ustr ''a@x.com'')),
         (ustr ''Date'', Str (ustr ''2024-01-01'')),
         (ustr ''Lesson1'', Str (ustr ''Completed'')),
         (ustr ''Lesson2'', Str (ustr ''Not Completed''))]]
     [normalizeKeys E
        [(ustr ''email'', Str (ustr ''A@X.com'')),
         (ustr ''Date'', Str (ustr ''2024-02-01'')),
         (ustr ''Lesson1'', Str (ustr ''Completed'')),
         (ustr ''Lesson2'', Str (ustr ''Completed''))]]
     [normalizeKeys E
        [(ustr ''Username (Email)'', Str (ustr ''a@x.com'')),
         (ustr ''District'', Str (ustr ''Riyadh''))]]
   = [\<lparr>District = ustr ''Riyadh'', City = [], Supervisor_Name = [], Pharmacy_No = [],
        User_Employee_ID = [], Username_Email = ustr ''a@x.com'', Display_Name = [],
        Phone_number = [], SCFHS = [], Completion_Rate = 1\<rparr>]"
  unfolding normalizeKeys_sheet normalizeKeys_master
  by (simp add: processData_eval)

theorem processData_scenario_witness:
  "map (\<lambda>d. (District d, Completion_Rate d))
     (processData sampleEnv
       [normalizeKeys sampleEnv
          [(ustr ''email'', Str (ustr ''a@x.com'')),
           (ustr ''Date'', Str (ustr ''2024-01-01'')),
           (ustr ''Lesson1'', Str (ustr ''Completed'')),
           (ustr ''Lesson2'', Str (ustr ''Not Completed''))]]
       [normalizeKeys sampleEnv
          [(ustr ''email'', Str (ustr ''A@X.com'')),
           (ustr ''Date'', Str (ustr ''2024-02-01'')),
           (ustr ''Lesson1'', Str (ustr ''Completed'')),
           (ustr ''Lesson2'', Str (ustr ''Completed''))]]
       [normalizeKeys sampleEnv
          [(ustr ''Username (Email)'', Str (ustr ''a@x.com'')),
           (ustr ''District'', Str (ustr ''Riyadh''))]])
   = [(ustr ''Riyadh'', 1)]"
  by (simp only: processData_scenario [of sampleEnv] list.map FinalReportRow.simps)

section \<open>Identity deduplication\<close>

lemma update_absent: "map_of m k = None \<Longrightarrow> AList.update k v m = m @ [(k, v)]"
  by (induction m) (auto split: if_splits)

lemma buildLmsMap_snoc:
  "buildLmsMap E lc (rows @ [r]) = dedupStep E lc (buildLmsMap E lc rows) r"
  by (simp add: buildLmsMap_def)

lemma jsGreater_irrefl: "\<not> jsGreater x x"
  by (cases x) simp_all

lemma dedupStep_string:
  assumes "map_of r colEmail = None \<or> (\<exists>s. map_of r colEmail = Some (Str s))"
  shows "dedupStep E lc m r =
     (let key = cleanText E (map_of r colEmail);
          new = \<lparr>row = r, rate = calculateRate E lc r\<rparr> in
      if key = [] \<or> key = ustr ''undefined'' then m
      else (case map_of m key of
              None \<Rightarrow> m @ [(key, new)]
            | Some ex \<Rightarrow>
                if rate ex < rate new \<or>
                   (rate new = rate ex \<and>
                    jsGreater (resolveDate E (map_of r colDate))
                              (resolveDate E (map_of (row ex) colDate)))
                then AList.update key new m else m))"
proof (cases "map_of r colEmail")
  case None
  then show ?thesis by (simp add: dedupStep_def)
next
  case (Some v)
  with assms obtain s where s: "map_of r colEmail = Some (Str s)" by auto
  show ?thesis
  proof (cases "s = []")
    case True
    have "cleanText E (Some (Str [])) = []"
      using cleanText_empty [of E "Str []"] by simp
    with True s show ?thesis by (simp add: dedupStep_def del: cleanText.simps)
  next
    case False
    with s show ?thesis
      by (auto simp add: dedupStep_def Let_def update_absent simp del: cleanText.simps
          split: option.splits)
  qed
qed

lemma dedupStep_numeric: "map_of r colEmail = Some (Num q) \<Longrightarrow> dedupStep E lc m r = m"
  by (simp add: dedupStep_def)

text \<open>
  Claim C2, as the code has it. The combined LMS rows are taken in order. A row whose
  email is a number is skipped, whatever its identity key (the normalized email) is.
  Any other row, whose email is missing or a string, is skipped when its identity key
  is empty or the text "undefined". When the key is not stored yet, the row is recorded
  with its score. When the key is stored, the entry is replaced if and only if the new
  score is strictly greater, or the scores are equal and the new row's resolved date is
  strictly later. The resolved date is the time value of the date unless that is
  \<^verbatim>\<open>NaN\<close> or 0, else the value as a number unless that is \<^verbatim>\<open>NaN\<close> or 0, else 0. With
  equal scores and equal resolved dates the first-seen row is kept.
\<close>

theorem dedup_policy:
  "buildLmsMap E lc (rows @ [r]) =
     (let m = buildLmsMap E lc rows;
          key = cleanText E (map_of r colEmail);
          new = \<lparr>row = r, rate = calculateRate E lc r\<rparr> in
      if (\<exists>q. map_of r colEmail = Some (Num q)) \<or> key = [] \<or> key = ustr ''undefined'' then m
      else (case map_of m key of
              None \<Rightarrow> m @ [(key, new)]
            | Some ex \<Rightarrow>
                if rate ex < rate new \<or>
                   (rate new = rate ex \<and>
                    jsGreater (resolveDate E (map_of r colDate))
                              (resolveDate E (map_of (row ex) colDate)))
                then AList.update key new m else m))
   \<and> (\<forall>ex. map_of (buildLmsMap E lc rows) (cleanText E (map_of r colEmail)) = Some ex \<and>
            rate ex = calculateRate E lc r \<and>
            resolveDate E (map_of (row ex) colDate) = resolveDate E (map_of r colDate)
            \<longrightarrow> buildLmsMap E lc (rows @ [r]) = buildLmsMap E lc rows)
   \<and> (\<forall>d. resolveDate E d =
            (if getTime E d \<noteq> NaN \<and> getTime E d \<noteq> Fin 0 then getTime E d
             else if toNumber E d \<noteq> NaN \<and> toNumber E d \<noteq> Fin 0 then toNumber E d
             else Fin 0))"
proof -
  have step: "buildLmsMap E lc (rows @ [r]) =
     (let m = buildLmsMap E lc rows;
          key = cleanText E (map_of r colEmail);
          new = \<lparr>row = r, rate = calculateRate E lc r\<rparr> in
      if (\<exists>q. map_of r colEmail = Some (Num q)) \<or> key = [] \<or> key = ustr ''undefined'' then m
      else (case map_of m key of
              None \<Rightarrow> m @ [(key, new)]
            | Some ex \<Rightarrow>
                if rate ex < rate new \<or>
                   (rate new = rate ex \<and>
                    jsGreater (resolveDate E (map_of r colDate))
                              (resolveDate E (map_of (row ex) colDate)))
                then AList.update key new m else m))"
  proof (cases "\<exists>q. map_of r colEmail = Some (Num q)")
    case True
    then obtain q where q: "map_of r colEmail = Some (Num q)" by blast
    have "buildLmsMap E lc (rows @ [r]) = buildLmsMap E lc rows"
      unfolding buildLmsMap_snoc using q by (rule dedupStep_numeric)
    then show ?thesis using True by (simp add: Let_def del: cleanText.simps)
  next
    case False
    have h: "map_of r colEmail = None \<or> (\<exists>s. map_of r colEmail = Some (Str s))"
    proof (cases "map_of r colEmail")
      case None
      then show ?thesis by simp
    next
      case (Some v)
      with False show ?thesis by (cases v) simp_all
    qed
    show ?thesis
      unfolding buildLmsMap_snoc dedupStep_string [OF h] using False
      by (simp add: Let_def del: cleanText.simps)
  qed
  have tie: "buildLmsMap E lc (rows @ [r]) = buildLmsMap E lc rows"
    if "map_of (buildLmsMap E lc rows) (cleanText E (map_of r colEmail)) = Some ex"
      and "rate ex = calculateRate E lc r"
      and "resolveDate E (map_of (row ex) colDate) = resolveDate E (map_of r colDate)" for ex
    unfolding step using that by (simp add: Let_def jsGreater_irrefl del: cleanText.simps)
  have truthy: "truthyNum x \<longleftrightarrow> x \<noteq> NaN \<and> x \<noteq> Fin 0" for x
    by (cases x) simp_all
  have date: "resolveDate E d =
              (if getTime E d \<noteq> NaN \<and> getTime E d \<noteq> Fin 0 then getTime E d
               else if toNumber E d \<noteq> NaN \<and> toNumber E d \<noteq> Fin 0 then toNumber E d
               else Fin 0)" for d
    unfolding resolveDate_def truthy by simp
  from step tie date show ?thesis by blast
qed

lemmas dedup_eval =
  buildLmsMap_def dedupStep_def calculateRate_def resolveDate_def
  col_eval target_eval text_eval Let_def ustr_def

theorem dedup_policy_witness:
  "buildLmsMap sampleEnv []
     ([[(colEmail, Str (ustr ''a@x.com'')), (colDate, Num 45000)]]
      @ [[(colEmail, Str (ustr '' A@X.com '')), (colDate, Num 45100)]])
   = [(ustr ''a@x.com'',
       \<lparr>row = [(colEmail, Str (ustr '' A@X.com '')), (colDate, Num 45100)], rate = 0\<rparr>)]
   \<and> buildLmsMap sampleEnv []
     ([[(colEmail, Str (ustr ''a@x.com'')), (colDate, Num 45000)]]
      @ [[(colEmail, Str (ustr ''A@X.COM'')), (colDate, Num 45000)]])
   = [(ustr ''a@x.com'',
       \<lparr>row = [(colEmail, Str (ustr ''a@x.com'')), (colDate, Num 45000)], rate = 0\<rparr>)]
   \<and> buildLmsMap sampleEnv []
     ([[(colEmail, Str (ustr ''a@x.com'')), (colDate, Num 45000)]]
      @ [[(colEmail, Num 7), (colDate, Num 45100)]])
   = [(ustr ''a@x.com'',
       \<lparr>row = [(colEmail, Str (ustr ''a@x.com'')), (colDate, Num 45000)], rate = 0\<rparr>)]"
proof -
  let ?r1 = "[(colEmail, Str (ustr ''a@x.com'')), (colDate, Num 45000)]"
  let ?r2 = "[(colEmail, Str (ustr '' A@X.com '')), (colDate, Num 45100)]"
  let ?r3 = "[(colEmail, Str (ustr ''A@X.COM'')), (colDate, Num 45000)]"
  let ?r4 = "[(colEmail, Num 7), (colDate, Num 45100)]"
  have m: "buildLmsMap sampleEnv [] [?r1] = [(ustr ''a@x.com'', \<lparr>row = ?r1, rate = 0\<rparr>)]"
    by (simp add: dedup_eval)
  note s2 = dedup_policy [of sampleEnv "[]" "[?r1]" ?r2, THEN conjunct1]
  note s3 = dedup_policy [of sampleEnv "[]" "[?r1]" ?r3, THEN conjunct2, THEN conjunct1,
      rule_format, of "\<lparr>row = ?r1, rate = 0\<rparr>"]
  note s4 = dedup_policy [of sampleEnv "[]" "[?r1]" ?r4, THEN conjunct1]
  have a: "buildLmsMap sampleEnv [] ([?r1] @ [?r2]) = [(ustr ''a@x.com'', \<lparr>row = ?r2, rate = 0\<rparr>)]"
    by (simp only: s2 m) (simp add: calculateRate_def resolveDate_def col_eval text_eval ustr_def Let_def)
  have t: "map_of (buildLmsMap sampleEnv [] [?r1]) (cleanText sampleEnv (map_of ?r3 colEmail))
             = Some \<lparr>row = ?r1, rate = 0\<rparr>
           \<and> rate \<lparr>row = ?r1, rate = 0\<rparr> = calculateRate sampleEnv [] ?r3
           \<and> resolveDate sampleEnv (map_of (row \<lparr>row = ?r1, rate = 0\<rparr>) colDate)
               = resolveDate sampleEnv (map_of ?r3 colDate)"
    by (simp only: m) (simp add: calculateRate_def resolveDate_def col_eval text_eval ustr_def Let_def)
  have b: "buildLmsMap sampleEnv [] ([?r1] @ [?r3]) = [(ustr ''a@x.com'', \<lparr>row = ?r1, rate = 0\<rparr>)]"
    using s3 [OF t] by (simp only: m)
  have c: "buildLmsMap sampleEnv [] ([?r1] @ [?r4]) = [(ustr ''a@x.com'', \<lparr>row = ?r1, rate = 0\<rparr>)]"
    by (simp only: s4 m) (simp add: col_eval Let_def)
  from a b c show ?thesis by blast
qed

text \<open>
  The claim as the specification states it, for every row, fails on a row whose email is
  the number 12345: its identity key is the text "12345", which is neither empty nor
  "undefined" and is not stored yet, and the row is not recorded.
\<close>

theorem dedup_numeric_counterexample:
  "cleanText sampleEnv (map_of [(colEmail, Num 12345)] colEmail) = ustr ''12345''
   \<and> map_of (buildLmsMap sampleEnv [] []) (ustr ''12345'') = None
   \<and> buildLmsMap sampleEnv [] ([] @ [[(colEmail, Num 12345)]]) = []"
proof -
  have n: "numToString sampleEnv 12345 = ustr ''12345''"
    by (simp add: sampleEnv_def ustr_def)
  have c: "cleanText sampleEnv (map_of [(colEmail, Num 12345)] colEmail) = ustr ''12345''"
    by (simp add: n) (simp add: text_eval ustr_def)
  have m: "map_of (buildLmsMap sampleEnv [] []) (ustr ''12345'') = None"
    by (simp add: buildLmsMap_def)
  have b: "buildLmsMap sampleEnv [] ([] @ [[(colEmail, Num 12345)]]) = []"
    by (simp add: buildLmsMap_def dedupStep_def)
  from c m b show ?thesis by blast
qed

subsection \<open>What the identity map holds\<close>

lemma set_update_subset: "set (AList.update k v m) \<subseteq> insert (k, v) (set m)"
  by (induction m) auto

lemma dedupStep_storedOk:
  assumes "\<forall>p \<in> set m. storedOk E lc R p" and "r \<in> R"
  shows "\<forall>p \<in> set (dedupStep E lc m r). storedOk E lc R p"
proof (cases "dedupStep E lc m r = m")
  case True
  with assms show ?thesis by simp
next
  case False
  then obtain s where s: "map_of r colEmail = Some (Str s)" "s \<noteq> []"
    by (auto simp: dedupStep_def split: option.splits jsval.splits if_splits)
  let ?key = "cleanText E (Some (Str s))"
  let ?new = "\<lparr>row = r, rate = calculateRate E lc r\<rparr>"
  have "dedupStep E lc m r = m \<or> dedupStep E lc m r = AList.update ?key ?new m"
    using s by (auto simp: dedupStep_def Let_def simp del: cleanText.simps split: option.splits)
  with False have eq: "dedupStep E lc m r = AList.update ?key ?new m" by simp
  have new: "storedOk E lc R (?key, ?new)"
    using s assms(2) by (simp add: storedOk_def del: cleanText.simps)
  show ?thesis
    unfolding eq using set_update_subset [of ?key ?new m] assms(1) new by blast
qed

lemma foldl_dedupStep_storedOk:
  "\<forall>p \<in> set m. storedOk E lc R p \<Longrightarrow> set rows \<subseteq> R \<Longrightarrow>
   \<forall>p \<in> set (foldl (dedupStep E lc) m rows). storedOk E lc R p"
proof (induction rows arbitrary: m)
  case Nil
  then show ?case by simp
next
  case (Cons r rows)
  from Cons.prems have "\<forall>p \<in> set (dedupStep E lc m r). storedOk E lc R p"
    by (intro dedupStep_storedOk) auto
  with Cons show ?case by simp
qed

lemma buildLmsMap_entries:
  assumes "(key, ent) \<in> set (buildLmsMap E lc rows)"
  shows "row ent \<in> set rows \<and> rate ent = calculateRate E lc (row ent) \<and>
         (\<exists>s. map_of (row ent) colEmail = Some (Str s) \<and> s \<noteq> [] \<and>
              key = cleanText E (Some (Str s)))"
proof -
  have "\<forall>p \<in> set (buildLmsMap E lc rows). storedOk E lc (set rows) p"
    unfolding buildLmsMap_def by (rule foldl_dedupStep_storedOk) simp_all
  with assms have "storedOk E lc (set rows) (key, ent)" by blast
  then show ?thesis by (simp add: storedOk_def del: cleanText.simps)
qed

subsection \<open>Rows with a numeric email\<close>

lemma buildLmsMap_numeric:
  "map_of r colEmail = Some (Num q) \<Longrightarrow>
   buildLmsMap E lc (a @ r # b) = buildLmsMap E lc (a @ b)"
  by (simp add: buildLmsMap_def dedupStep_numeric)

lemma cleanText_nonempty: "cleanText E (Some v) \<noteq> [] \<Longrightarrow> toString E v \<noteq> []"
  using cleanText_empty [of E v] by blast

text \<open>
  Claim C10. A combined LMS row whose \<^verbatim>\<open>Username (Email)\<close> is a number is skipped by the
  deduplication: the identity map is the one built without that row, so the row can
  only influence the report through the inference of the lesson columns. This holds
  although the normalized text of the number may be a proper identity key: the same row
  with the number written as a string is recorded under that key.
\<close>

theorem numeric_email_skipped:
  assumes "map_of r colEmail = Some (Num q)"
  shows
    "dedupStep E lc m r = m
     \<and> buildLmsMap E lc (a @ r # b) = buildLmsMap E lc (a @ b)
     \<and> (\<forall>p \<in> set (buildLmsMap E lc (a @ r # b)). row (snd p) \<noteq> r)
     \<and> processData E (a @ r # b) lms2 master =
         List.map_filter
           (\<lambda>(emailKey, lmsEnt). mergeRow E (map_of (buildMasterMap E master) emailKey) lmsEnt)
           (buildLmsMap E (lessonColumns E (a @ r # b @ lms2)) (a @ b @ lms2))
     \<and> (cleanText E (Some (Num q)) \<noteq> [] \<and> cleanText E (Some (Num q)) \<noteq> ustr ''undefined''
        \<longrightarrow> dedupStep E lc [] ((colEmail, Str (numToString E q)) # r) =
              [(cleanText E (Some (Num q)),
                \<lparr>row = (colEmail, Str (numToString E q)) # r,
                 rate = calculateRate E lc ((colEmail, Str (numToString E q)) # r)\<rparr>)])"
proof -
  have 1: "dedupStep E lc m r = m"
    using assms by (rule dedupStep_numeric)
  have 2: "buildLmsMap E lc (a @ r # b) = buildLmsMap E lc (a @ b)" for lc a b
    using assms by (rule buildLmsMap_numeric)
  have 3: "\<forall>p \<in> set (buildLmsMap E lc (a @ r # b)). row (snd p) \<noteq> r"
  proof
    fix p assume "p \<in> set (buildLmsMap E lc (a @ r # b))"
    then have "(fst p, snd p) \<in> set (buildLmsMap E lc (a @ r # b))" by simp
    from buildLmsMap_entries [OF this]
    obtain s where "map_of (row (snd p)) colEmail = Some (Str s)" by blast
    with assms show "row (snd p) \<noteq> r" by auto
  qed
  have 4: "processData E (a @ r # b) lms2 master =
         List.map_filter
           (\<lambda>(emailKey, lmsEnt). mergeRow E (map_of (buildMasterMap E master) emailKey) lmsEnt)
           (buildLmsMap E (lessonColumns E (a @ r # b @ lms2)) (a @ b @ lms2))"
    using 2 [of "lessonColumns E (a @ r # b @ lms2)" a "b @ lms2"]
    by (simp add: processData_def Let_def)
  have 5: "dedupStep E lc [] ((colEmail, Str (numToString E q)) # r) =
              [(cleanText E (Some (Num q)),
                \<lparr>row = (colEmail, Str (numToString E q)) # r,
                 rate = calculateRate E lc ((colEmail, Str (numToString E q)) # r)\<rparr>)]"
    if k: "cleanText E (Some (Num q)) \<noteq> []" "cleanText E (Some (Num q)) \<noteq> ustr ''undefined''"
  proof -
    have ne: "numToString E q \<noteq> []" using cleanText_nonempty [OF k(1)] by simp
    have same: "cleanText E (Some (Str (numToString E q))) = cleanText E (Some (Num q))" by simp
    show ?thesis
      using ne k unfolding same [symmetric]
      by (simp add: dedupStep_def Let_def del: cleanText.simps)
  qed
  from 1 2 3 4 5 show ?thesis by blast
qed

theorem numeric_email_skipped_witness:
  "cleanText sampleEnv (Some (Num 12345)) = ustr ''12345''
   \<and> buildLmsMap sampleEnv []
       ([[(colEmail, Str (ustr ''a@x.com''))]] @ [(colEmail, Num 12345)] # [])
     = buildLmsMap sampleEnv [] ([[(colEmail, Str (ustr ''a@x.com''))]] @ [])
   \<and> dedupStep sampleEnv [] [] [(colEmail, Str (ustr ''12345'')), (colEmail, Num 12345)]
     = [(ustr ''12345'',
         \<lparr>row = [(colEmail, Str (ustr ''12345'')), (colEmail, Num 12345)], rate = 0\<rparr>)]"
proof -
  have h: "map_of [(colEmail, Num 12345)] colEmail = Some (Num 12345)" by simp
  have n: "numToString sampleEnv 12345 = ustr ''12345''"
    by (simp add: sampleEnv_def ustr_def)
  have c: "cleanText sampleEnv (Some (Num 12345)) = ustr ''12345''"
    by (simp add: n) (simp add: text_eval ustr_def)
  have u: "ustr ''12345'' \<noteq> [] \<and> ustr ''12345'' \<noteq> ustr ''undefined''"
    by (simp add: ustr_def)
  have r0: "calculateRate sampleEnv [] x = 0" for x by (simp add: calculateRate_def)
  note t = numeric_email_skipped [OF h, of sampleEnv "[]" "[]" "[[(colEmail, Str (ustr ''a@x.com''))]]" "[]" "[]" "[]"]
  from t have a: "buildLmsMap sampleEnv []
       ([[(colEmail, Str (ustr ''a@x.com''))]] @ [(colEmail, Num 12345)] # [])
     = buildLmsMap sampleEnv [] ([[(colEmail, Str (ustr ''a@x.com''))]] @ [])"
    by blast
  from t have "cleanText sampleEnv (Some (Num 12345)) \<noteq> [] \<and>
        cleanText sampleEnv (Some (Num 12345)) \<noteq> ustr ''undefined''
        \<longrightarrow> dedupStep sampleEnv [] [] ((colEmail, Str (numToString sampleEnv 12345)) # [(colEmail, Num 12345)]) =
              [(cleanText sampleEnv (Some (Num 12345)),
                \<lparr>row = (colEmail, Str (numToString sampleEnv 12345)) # [(colEmail, Num 12345)],
                 rate = calculateRate sampleEnv [] ((colEmail, Str (numToString sampleEnv 12345)) # [(colEmail, Num 12345)])\<rparr>)]"
    by blast
  then have b: "dedupStep sampleEnv [] [] [(colEmail, Str (ustr ''12345'')), (colEmail, Num 12345)]
     = [(ustr ''12345'',
         \<lparr>row = [(colEmail, Str (ustr ''12345'')), (colEmail, Num 12345)], rate = 0\<rparr>)]"
    unfolding c n r0 using u by blast
  from c a b show ?thesis by blast
qed

section \<open>Merging with the master sheet\<close>

lemma orElse_cases: "orElse a b = (case a of Some v \<Rightarrow> if truthy v then v else b | None \<Rightarrow> b)"
  by (simp add: orElse_def)

lemma mergedField_empty_or_truthy:
  "mergedField masterRow lmsRow name = Str [] \<or> truthy (mergedField masterRow lmsRow name)"
  by (auto simp: mergedField_def orElse_def split: option.splits)

lemma truthy_mergedField:
  "truthy (mergedField masterRow lmsRow name) \<longleftrightarrow> mergedField masterRow lmsRow name \<noteq> Str []"
  using mergedField_empty_or_truthy [of masterRow lmsRow name] by auto

lemma toString_mergedField:
  "toString E (mergedField masterRow lmsRow name)
     = specPrecedence E (masterValueOf masterRow name) (map_of lmsRow name)"
  by (auto simp: mergedField_def orElse_def specPrecedence_def masterValueOf_def
      split: option.splits)

lemma mergeRow_Some:
  assumes "mergeRow E masterRow ent = Some out"
  shows "District out = specPrecedence E (masterValueOf masterRow colDistrict) (map_of (row ent) colDistrict)"
    and "City out = specPrecedence E (masterValueOf masterRow colCity) (map_of (row ent) colCity)"
    and "Supervisor_Name out = specPrecedence E (masterValueOf masterRow colSupervisor) (map_of (row ent) colSupervisor)"
    and "Pharmacy_No out = specPrecedence E (masterValueOf masterRow colPharmacyNo) (map_of (row ent) colPharmacyNo)"
    and "User_Employee_ID out = specPrecedence E (masterValueOf masterRow colEmployeeId) (map_of (row ent) colEmployeeId)"
    and "Username_Email out = specPrecedence E (masterValueOf masterRow colEmail) (map_of (row ent) colEmail)"
    and "Display_Name out = specPrecedence E (masterValueOf masterRow colDisplayName) (map_of (row ent) colDisplayName)"
    and "Phone_number out = specPrecedence E (masterValueOf masterRow colPhone) (map_of (row ent) colPhone)"
    and "SCFHS out = specPrecedence E (masterValueOf masterRow colSCFHS) (map_of (row ent) colSCFHS)"
    and "Completion_Rate out = rate ent"
  using assms
  by (auto simp: mergeRow_def Let_def toString_mergedField split: if_splits)

lemma mergeRow_None_iff:
  "mergeRow E masterRow ent = None \<longleftrightarrow>
     mergedField masterRow (row ent) colEmployeeId = Str [] \<and>
     mergedField masterRow (row ent) colEmail = Str [] \<and>
     mergedField masterRow (row ent) colDisplayName = Str []"
  by (simp add: mergeRow_def Let_def truthy_mergedField)

lemma set_map_filter: "set (List.map_filter f xs) = {y. \<exists>x \<in> set xs. f x = Some y}"
  by (induction xs) (auto simp: List.map_filter_simps split: option.splits)

lemma processData_set:
  "set (processData E lms1 lms2 master) =
     {out. \<exists>key ent.
        (key, ent) \<in> set (buildLmsMap E (lessonColumns E (lms1 @ lms2)) (lms1 @ lms2)) \<and>
        mergeRow E (map_of (buildMasterMap E master) key) ent = Some out}"
  unfolding processData_def Let_def set_map_filter by force

lemma stored_email_truthy:
  assumes "(key, ent) \<in> set (buildLmsMap E lc rows)"
  shows "truthy (mergedField masterRow (row ent) colEmail)"
proof -
  from buildLmsMap_entries [OF assms]
  obtain s where "map_of (row ent) colEmail = Some (Str s)" "s \<noteq> []" by blast
  then show ?thesis
    by (auto simp: mergedField_def orElse_def split: option.splits)
qed

lemma map_filter_all_Some:
  "\<forall>x \<in> set xs. \<exists>y. f x = Some y \<and> g y = h x \<Longrightarrow> map g (List.map_filter f xs) = map h xs"
  by (induction xs) (auto simp: List.map_filter_simps)

lemma processData_rates:
  "map Completion_Rate (processData E lms1 lms2 master)
     = map (\<lambda>p. rate (snd p)) (buildLmsMap E (lessonColumns E (lms1 @ lms2)) (lms1 @ lms2))"
proof -
  let ?m = "buildLmsMap E (lessonColumns E (lms1 @ lms2)) (lms1 @ lms2)"
  let ?f = "\<lambda>(emailKey, lmsEnt). mergeRow E (map_of (buildMasterMap E master) emailKey) lmsEnt"
  have "\<exists>y. ?f p = Some y \<and> Completion_Rate y = rate (snd p)" if "p \<in> set ?m" for p
  proof -
    obtain key ent where p: "p = (key, ent)" by (cases p)
    with that have "truthy (mergedField (map_of (buildMasterMap E master) key) (row ent) colEmail)"
      using stored_email_truthy by blast
    then show ?thesis
      unfolding p by (simp add: mergeRow_def Let_def)
  qed
  then have "map Completion_Rate (List.map_filter ?f ?m) = map (\<lambda>p. rate (snd p)) ?m"
    by (intro map_filter_all_Some) blast
  then show ?thesis by (simp add: processData_def Let_def)
qed

lemma buildMasterMap_snoc:
  "buildMasterMap E (ms @ [r]) = masterStep E (buildMasterMap E ms) r"
  by (simp add: buildMasterMap_def)

lemma map_of_buildMasterMap:
  "map_of (buildMasterMap E master) key =
     (let rs = filter (\<lambda>r. case map_of r colEmail of
                              Some v \<Rightarrow> truthy v \<and> cleanText E (Some v) = key
                            | None \<Rightarrow> False) master
      in if rs = [] then None else Some (last rs))"
proof (induction master rule: rev_induct)
  case Nil
  then show ?case by (simp add: buildMasterMap_def)
next
  case (snoc r ms)
  show ?case
  proof (cases "map_of r colEmail")
    case None
    with snoc show ?thesis
      by (simp add: buildMasterMap_snoc masterStep_def Let_def)
  next
    case (Some v)
    with snoc show ?thesis
      by (simp add: buildMasterMap_snoc masterStep_def Let_def AList.update_conv'
          del: cleanText.simps)
  qed
qed

text \<open>
  Claim C3. Every row of the report comes from an entry of the identity map. Each of
  its text fields follows the precedence rule: the master record's value when a master
  record is found under the key and the value is truthy, else the winning LMS row's
  value when that is truthy, else the empty string (values are converted to strings).
  Its Completion Rate is the rate stored with the entry, which is the score of the
  winning LMS row; the list of rates of the report is the list of stored rates,
  whatever the master sheet holds. The master record found under a key is the last
  master row whose email is truthy and normalizes to the key.
\<close>

theorem merge_precedence:
  assumes "out \<in> set (processData E lms1 lms2 master)"
  shows
    "(\<exists>key ent.
       (key, ent) \<in> set (buildLmsMap E (lessonColumns E (lms1 @ lms2)) (lms1 @ lms2)) \<and>
       (let masterRow = map_of (buildMasterMap E master) key;
            pick = (\<lambda>name. specPrecedence E (masterValueOf masterRow name) (map_of (row ent) name))
        in District out = pick colDistrict \<and>
           City out = pick colCity \<and>
           Supervisor_Name out = pick colSupervisor \<and>
           Pharmacy_No out = pick colPharmacyNo \<and>
           User_Employee_ID out = pick colEmployeeId \<and>
           Username_Email out = pick colEmail \<and>
           Display_Name out = pick colDisplayName \<and>
           Phone_number out = pick colPhone \<and>
           SCFHS out = pick colSCFHS) \<and>
       Completion_Rate out = rate ent \<and>
       rate ent = calculateRate E (lessonColumns E (lms1 @ lms2)) (row ent))
     \<and> map Completion_Rate (processData E lms1 lms2 master)
           = map (\<lambda>p. rate (snd p))
               (buildLmsMap E (lessonColumns E (lms1 @ lms2)) (lms1 @ lms2))
     \<and> (\<forall>key. map_of (buildMasterMap E master) key =
           (let rs = filter (\<lambda>r. case map_of r colEmail of
                                    Some v \<Rightarrow> truthy v \<and> cleanText E (Some v) = key
                                  | None \<Rightarrow> False) master
            in if rs = [] then None else Some (last rs)))"
proof (intro conjI)
  from assms obtain key ent where
    st: "(key, ent) \<in> set (buildLmsMap E (lessonColumns E (lms1 @ lms2)) (lms1 @ lms2))" and
    mr: "mergeRow E (map_of (buildMasterMap E master) key) ent = Some out"
    unfolding processData_set by blast
  from buildLmsMap_entries [OF st]
  have r: "rate ent = calculateRate E (lessonColumns E (lms1 @ lms2)) (row ent)" by blast
  show "\<exists>key ent.
       (key, ent) \<in> set (buildLmsMap E (lessonColumns E (lms1 @ lms2)) (lms1 @ lms2)) \<and>
       (let masterRow = map_of (buildMasterMap E master) key;
            pick = (\<lambda>name. specPrecedence E (masterValueOf masterRow name) (map_of (row ent) name))
        in District out = pick colDistrict \<and>
           City out = pick colCity \<and>
           Supervisor_Name out = pick colSupervisor \<and>
           Pharmacy_No out = pick colPharmacyNo \<and>
           User_Employee_ID out = pick colEmployeeId \<and>
           Username_Email out = pick colEmail \<and>
           Display_Name out = pick colDisplayName \<and>
           Phone_number out = pick colPhone \<and>
           SCFHS out = pick colSCFHS) \<and>
       Completion_Rate out = rate ent \<and>
       rate ent = calculateRate E (lessonColumns E (lms1 @ lms2)) (row ent)"
    using st r mergeRow_Some [OF mr] unfolding Let_def by blast
  show "map Completion_Rate (processData E lms1 lms2 master)
           = map (\<lambda>p. rate (snd p))
               (buildLmsMap E (lessonColumns E (lms1 @ lms2)) (lms1 @ lms2))"
    by (rule processData_rates)
  show "\<forall>key. map_of (buildMasterMap E master) key =
           (let rs = filter (\<lambda>r. case map_of r colEmail of
                                    Some v \<Rightarrow> truthy v \<and> cleanText E (Some v) = key
                                  | None \<Rightarrow> False) master
            in if rs = [] then None else Some (last rs))"
    using map_of_buildMasterMap by blast
qed

theorem merge_precedence_witness:
  "processData sampleEnv mergeExampleLms [] mergeExampleMaster = [mergeExampleOut]
   \<and> (\<exists>key ent.
       (key, ent) \<in> set (buildLmsMap sampleEnv (lessonColumns sampleEnv (mergeExampleLms @ []))
                           (mergeExampleLms @ [])) \<and>
       District mergeExampleOut =
         specPrecedence sampleEnv
           (masterValueOf (map_of (buildMasterMap sampleEnv mergeExampleMaster) key) colDistrict)
           (map_of (row ent) colDistrict) \<and>
       City mergeExampleOut =
         specPrecedence sampleEnv
           (masterValueOf (map_of (buildMasterMap sampleEnv mergeExampleMaster) key) colCity)
           (map_of (row ent) colCity) \<and>
       Completion_Rate mergeExampleOut = rate ent)"
proof -
  have e: "processData sampleEnv mergeExampleLms [] mergeExampleMaster = [mergeExampleOut]"
    by (simp add: mergeExampleLms_def mergeExampleMaster_def mergeExampleOut_def processData_eval)
  then have "mergeExampleOut \<in> set (processData sampleEnv mergeExampleLms [] mergeExampleMaster)"
    by simp
  from merge_precedence [OF this, THEN conjunct1] e show ?thesis
    unfolding Let_def by blast
qed

text \<open>
  Claim C7. A merged record is emitted if and only if, after the precedence resolution,
  at least one of User/Employee ID, Username (Email) and Display Name is not the empty
  string; with all three empty nothing is emitted, whatever the other fields hold. The
  report consists of the records emitted for the entries of the identity map.
\<close>

theorem suppression:
  "(mergeRow E masterRow ent \<noteq> None) =
     (mergedField masterRow (row ent) colEmployeeId \<noteq> Str [] \<or>
      mergedField masterRow (row ent) colEmail \<noteq> Str [] \<or>
      mergedField masterRow (row ent) colDisplayName \<noteq> Str [])
   \<and> set (processData E lms1 lms2 master) =
     {out. \<exists>key e.
        (key, e) \<in> set (buildLmsMap E (lessonColumns E (lms1 @ lms2)) (lms1 @ lms2)) \<and>
        mergeRow E (map_of (buildMasterMap E master) key) e = Some out}"
proof (rule conjI)
  show "(mergeRow E masterRow ent \<noteq> None) =
     (mergedField masterRow (row ent) colEmployeeId \<noteq> Str [] \<or>
      mergedField masterRow (row ent) colEmail \<noteq> Str [] \<or>
      mergedField masterRow (row ent) colDisplayName \<noteq> Str [])"
    unfolding mergeRow_None_iff by blast
  show "set (processData E lms1 lms2 master) =
     {out. \<exists>key e.
        (key, e) \<in> set (buildLmsMap E (lessonColumns E (lms1 @ lms2)) (lms1 @ lms2)) \<and>
        mergeRow E (map_of (buildMasterMap E master) key) e = Some out}"
    by (rule processData_set)
qed


theorem suppression_witness:
  "mergeRow sampleEnv None \<lparr>row = [(colPhone, Str (ustr ''0555''))], rate = 0\<rparr> = None
   \<and> mergeRow sampleEnv None \<lparr>row = [(colDisplayName, Str (ustr ''Sara''))], rate = 0\<rparr> \<noteq> None"
proof -
  have a: "mergedField None [(colPhone, Str (ustr ''0555''))] colEmployeeId = Str []"
    "mergedField None [(colPhone, Str (ustr ''0555''))] colEmail = Str []"
    "mergedField None [(colPhone, Str (ustr ''0555''))] colDisplayName = Str []"
    by (simp_all add: mergedField_def orElse_def col_eval)
  have b: "mergedField None [(colDisplayName, Str (ustr ''Sara''))] colDisplayName \<noteq> Str []"
    by (simp add: mergedField_def orElse_def ustr_def)
  from suppression [of sampleEnv None "\<lparr>row = [(colPhone, Str (ustr ''0555''))], rate = 0\<rparr>",
      THEN conjunct1] a
  have 1: "mergeRow sampleEnv None \<lparr>row = [(colPhone, Str (ustr ''0555''))], rate = 0\<rparr> = None"
    by simp
  from suppression [of sampleEnv None "\<lparr>row = [(colDisplayName, Str (ustr ''Sara''))], rate = 0\<rparr>",
      THEN conjunct1] b
  have 2: "mergeRow sampleEnv None \<lparr>row = [(colDisplayName, Str (ustr ''Sara''))], rate = 0\<rparr> \<noteq> None"
    by simp
  from 1 2 show ?thesis by blast
qed

section \<open>Alias resolution and the collision policy\<close>

lemma distinct_lowerAliases: "distinct (map fst lowerAliases)"
  by (simp add: lowerAliases_eval)

lemma lowerAliases_mem:
  "(l, c) \<in> set lowerAliases \<longleftrightarrow> (\<exists>k. (k, c) \<in> set COLUMN_ALIASES \<and> map lowerUnit k = l)"
  unfolding lowerAliases_def by force

lemma toLowerCase_table:
  "(k, c) \<in> set COLUMN_ALIASES \<Longrightarrow> toLowerCase E k = map lowerUnit k"
  using toLowerCase_alias [of "(k, c)" E] by simp

lemma map_of_lowerAliases:
  "map_of lowerAliases l = Some c \<longleftrightarrow> (\<exists>k. (k, c) \<in> set COLUMN_ALIASES \<and> map lowerUnit k = l)"
  using distinct_lowerAliases by (simp add: lowerAliases_mem [symmetric])

lemma resolveKey_alias:
  assumes np: "trim key \<notin> set objectPrototypeKeys"
    and kc: "(k, c) \<in> set COLUMN_ALIASES"
    and eq: "toLowerCase E (trim key) = toLowerCase E k"
  shows "resolveKey E key = c"
proof -
  have low: "map_of lowerAliases (toLowerCase E (trim key)) = Some c"
    unfolding map_of_lowerAliases using kc eq toLowerCase_table [OF kc, of E] by auto
  show ?thesis
  proof (cases "map_of COLUMN_ALIASES (trim key)")
    case None
    with np low show ?thesis by (simp add: resolveKey_eval)
  next
    case (Some c')
    then have t: "(trim key, c') \<in> set COLUMN_ALIASES" by (rule map_of_SomeD)
    then have "map_of lowerAliases (toLowerCase E (trim key)) = Some c'"
      unfolding map_of_lowerAliases using toLowerCase_table [OF t, of E] by auto
    with low have "c' = c" by simp
    with Some show ?thesis by (simp add: resolveKey_eval)
  qed
qed

lemma resolveKey_other:
  assumes np: "trim key \<notin> set objectPrototypeKeys"
    and no: "\<forall>k c. (k, c) \<in> set COLUMN_ALIASES \<longrightarrow> toLowerCase E (trim key) \<noteq> toLowerCase E k"
  shows "resolveKey E key = trim key"
proof -
  have a: "map_of COLUMN_ALIASES (trim key) = None"
  proof (cases "map_of COLUMN_ALIASES (trim key)")
    case None
    then show ?thesis .
  next
    case (Some c')
    then have "(trim key, c') \<in> set COLUMN_ALIASES" by (rule map_of_SomeD)
    with no show ?thesis by blast
  qed
  have b: "map_of lowerAliases (toLowerCase E (trim key)) = None"
  proof (cases "map_of lowerAliases (toLowerCase E (trim key))")
    case None
    then show ?thesis .
  next
    case (Some c)
    then obtain k where k: "(k, c) \<in> set COLUMN_ALIASES"
      and "map lowerUnit k = toLowerCase E (trim key)"
      unfolding map_of_lowerAliases by blast
    then have "toLowerCase E (trim key) = toLowerCase E k"
      using toLowerCase_table [OF k, of E] by simp
    with no k show ?thesis by blast
  qed
  from a b np show ?thesis by (simp add: resolveKey_eval)
qed

lemma map_of_normalizeStep:
  "map_of (normalizeStep E newObj kv) name =
     (if keptKey E (fst kv) \<and> resolveKey E (fst kv) = name
      then combineValue (map_of newObj name) (snd kv)
      else map_of newObj name)"
  by (auto simp: normalizeStep_def Let_def combineValue_def AList.update_conv'
      split: option.splits)

lemma map_of_foldl_normalizeStep:
  "map_of (foldl (normalizeStep E) newObj obj) name =
     foldl combineValue (map_of newObj name)
       (map snd (filter (\<lambda>kv. keptKey E (fst kv) \<and> resolveKey E (fst kv) = name) obj))"
proof (induction obj arbitrary: newObj)
  case Nil
  then show ?case by simp
next
  case (Cons kv obj)
  show ?case
    by (simp add: Cons.IH map_of_normalizeStep)
qed

lemma firstNonEmpty_Cons:
  "firstNonEmpty (v # vs) = (if v \<noteq> Str [] then v else firstNonEmpty vs)"
  by (simp add: firstNonEmpty_def)

lemma foldl_combineValue_Some:
  "foldl combineValue (Some old) vs = Some (firstNonEmpty (old # vs))"
proof (induction vs arbitrary: old)
  case Nil
  then show ?case by (simp add: firstNonEmpty_def)
next
  case (Cons v vs)
  have s: "combineValue (Some old) v = Some (if old = Str [] \<and> v \<noteq> Str [] then v else old)"
    by (simp add: combineValue_def)
  have "foldl combineValue (Some old) (v # vs)
          = foldl combineValue (Some (if old = Str [] \<and> v \<noteq> Str [] then v else old)) vs"
    by (simp only: foldl_Cons s)
  also have "\<dots> = Some (firstNonEmpty ((if old = Str [] \<and> v \<noteq> Str [] then v else old) # vs))"
    by (rule Cons.IH)
  also have "firstNonEmpty ((if old = Str [] \<and> v \<noteq> Str [] then v else old) # vs)
          = firstNonEmpty (old # v # vs)"
    by (simp add: firstNonEmpty_Cons)
  finally show ?case .
qed

lemma foldl_combineValue_None:
  "foldl combineValue None vs = (if vs = [] then None else Some (firstNonEmpty vs))"
proof (cases vs)
  case Nil
  then show ?thesis by simp
next
  case (Cons v vs')
  have "combineValue None v = Some v" by (simp add: combineValue_def)
  then have "foldl combineValue None (v # vs') = foldl combineValue (Some v) vs'"
    by (simp only: foldl_Cons)
  then show ?thesis unfolding Cons by (simp add: foldl_combineValue_Some)
qed

lemma map_of_normalizeKeys:
  assumes "\<forall>kv \<in> set obj. trim (fst kv) \<notin> set objectPrototypeKeys"
  shows "map_of (normalizeKeys E obj) name =
     (let vs = map snd (filter (\<lambda>kv. resolveKey E (fst kv) = name) obj)
      in if name = [] \<or> vs = [] then None else Some (firstNonEmpty vs))"
proof -
  have f: "filter (\<lambda>kv. keptKey E (fst kv) \<and> resolveKey E (fst kv) = name) obj
         = (if name = [] then [] else filter (\<lambda>kv. resolveKey E (fst kv) = name) obj)"
  proof (cases "name = []")
    case True
    have "\<not> (keptKey E (fst kv) \<and> resolveKey E (fst kv) = [])" if "kv \<in> set obj" for kv
      using assms that by (auto simp: keptKey_def)
    then have "filter (\<lambda>kv. keptKey E (fst kv) \<and> resolveKey E (fst kv) = []) obj = []"
      by (simp add: filter_empty_conv)
    with True show ?thesis by simp
  next
    case False
    have "filter (\<lambda>kv. keptKey E (fst kv) \<and> resolveKey E (fst kv) = name) obj
         = filter (\<lambda>kv. resolveKey E (fst kv) = name) obj"
      by (rule filter_cong) (use False in \<open>auto simp: keptKey_def\<close>)
    with False show ?thesis by simp
  qed
  show ?thesis
    unfolding normalizeKeys_def map_of_foldl_normalizeStep f
    by (simp add: foldl_combineValue_None Let_def)
qed

text \<open>
  Claim C6, as the code has it. For a key whose trimmed form does not name a member of
  \<^verbatim>\<open>Object.prototype\<close>: when the trimmed key equals a key of the alias table, exactly or
  up to case, it is rewritten to that entry's canonical name; otherwise the trimmed key
  (not the key as it stands) is the name, and a key that trims to the empty string is
  dropped with its value. Under each name a resolved row holds the first value
  encountered among the source keys that resolve to it, overwritten only while the stored
  value is the empty string and the new one is not: the first value that is not the empty
  string, or the empty string when all are.
\<close>

theorem alias_resolution:
  assumes "trim key \<notin> set objectPrototypeKeys"
    and "\<forall>kv \<in> set obj. trim (fst kv) \<notin> set objectPrototypeKeys"
  shows
    "(\<forall>k c. (k, c) \<in> set COLUMN_ALIASES \<and> trim key = k \<longrightarrow> resolveKey E key = c)
     \<and> (\<forall>k c. (k, c) \<in> set COLUMN_ALIASES \<and> toLowerCase E (trim key) = toLowerCase E k
               \<longrightarrow> resolveKey E key = c)
     \<and> ((\<forall>k c. (k, c) \<in> set COLUMN_ALIASES \<longrightarrow> toLowerCase E (trim key) \<noteq> toLowerCase E k)
          \<longrightarrow> resolveKey E key = trim key)
     \<and> (\<forall>name. map_of (normalizeKeys E obj) name =
           (let vs = map snd (filter (\<lambda>kv. resolveKey E (fst kv) = name) obj)
            in if name = [] \<or> vs = [] then None else Some (firstNonEmpty vs)))"
proof -
  have 1: "\<forall>k c. (k, c) \<in> set COLUMN_ALIASES \<and> trim key = k \<longrightarrow> resolveKey E key = c"
    using resolveKey_alias [OF assms(1)] by auto
  have 2: "\<forall>k c. (k, c) \<in> set COLUMN_ALIASES \<and> toLowerCase E (trim key) = toLowerCase E k
               \<longrightarrow> resolveKey E key = c"
    using resolveKey_alias [OF assms(1)] by blast
  have 3: "(\<forall>k c. (k, c) \<in> set COLUMN_ALIASES \<longrightarrow> toLowerCase E (trim key) \<noteq> toLowerCase E k)
          \<longrightarrow> resolveKey E key = trim key"
    using resolveKey_other [OF assms(1)] by blast
  have 4: "\<forall>name. map_of (normalizeKeys E obj) name =
           (let vs = map snd (filter (\<lambda>kv. resolveKey E (fst kv) = name) obj)
            in if name = [] \<or> vs = [] then None else Some (firstNonEmpty vs))"
    using map_of_normalizeKeys [OF assms(2)] by blast
  from 1 2 3 4 show ?thesis by blast
qed

lemma normalizeStep_dropped:
  "resolveKey E k = [] \<Longrightarrow> trim k \<notin> set objectPrototypeKeys \<Longrightarrow>
   normalizeStep E newObj (k, v) = newObj"
  by (simp add: normalizeStep_def keptKey_def)

lemma trim_blank: "trim (ustr ''  '') = []"
  by (simp add: text_eval ustr_def)

lemma resolveKey_blank: "resolveKey E (ustr ''  '') = []"
  by (simp add: resolve_eval)

lemma resolveKey_Foo: "resolveKey E (ustr '' Foo '') = ustr ''Foo''"
  by (simp add: resolve_eval)

lemma resolveKey_Email: "resolveKey E (ustr ''Email'') = ustr ''Username (Email)''"
  by (simp add: resolve_eval)

lemma resolveKey_username: "resolveKey E (ustr ''username'') = ustr ''Username (Email)''"
  by (simp add: resolve_eval)

lemma collisionExample_keys:
  "\<forall>kv \<in> set collisionExample. trim (fst kv) \<notin> set objectPrototypeKeys"
  by (simp add: collisionExample_def objectPrototypeKeys_eval text_eval ustr_def)

theorem alias_resolution_witness:
  "resolveKey sampleEnv (ustr ''E-MAIL'') = ustr ''Username (Email)''
   \<and> resolveKey sampleEnv (ustr '' Notes '') = ustr ''Notes''
   \<and> map_of (normalizeKeys sampleEnv collisionExample) (ustr ''Username (Email)'')
       = Some (Str (ustr ''b@x.com''))"
proof -
  have h1: "trim (ustr ''E-MAIL'') \<notin> set objectPrototypeKeys"
    by (simp add: objectPrototypeKeys_eval text_eval ustr_def)
  have h2: "trim (ustr '' Notes '') \<notin> set objectPrototypeKeys"
    by (simp add: objectPrototypeKeys_eval text_eval ustr_def)
  have m: "(ustr ''E-mail'', ustr ''Username (Email)'') \<in> set COLUMN_ALIASES"
    by (simp add: COLUMN_ALIASES_def)
  have l: "toLowerCase sampleEnv (trim (ustr ''E-MAIL''))
           = toLowerCase sampleEnv (ustr ''E-mail'')"
    by (simp add: text_eval ustr_def)
  from alias_resolution [OF h1 collisionExample_keys, of sampleEnv] m l
  have a: "resolveKey sampleEnv (ustr ''E-MAIL'') = ustr ''Username (Email)''"
    by blast
  have tn: "trim (ustr '' Notes '') = ustr ''Notes''"
    by (simp add: text_eval ustr_def)
  have no: "\<forall>k c. (k, c) \<in> set COLUMN_ALIASES \<longrightarrow>
              toLowerCase sampleEnv (trim (ustr '' Notes '')) \<noteq> toLowerCase sampleEnv k"
  proof -
    have "map lowerUnit (ustr ''Notes'') \<notin> set (map fst lowerAliases)"
      by (simp add: lowerAliases_eval lowerUnit_def ustr_def)
    then show ?thesis
      unfolding tn lowerAliases_def toLowerCase_sampleEnv by force
  qed
  from alias_resolution [OF h2 collisionExample_keys, of sampleEnv] no
  have "resolveKey sampleEnv (ustr '' Notes '') = trim (ustr '' Notes '')"
    by blast
  then have b: "resolveKey sampleEnv (ustr '' Notes '') = ustr ''Notes''"
    by (simp only: tn)
  from alias_resolution [OF h1 collisionExample_keys, of sampleEnv]
  have "map_of (normalizeKeys sampleEnv collisionExample) (ustr ''Username (Email)'') =
           (let vs = map snd (filter (\<lambda>kv. resolveKey sampleEnv (fst kv) = ustr ''Username (Email)'')
                                collisionExample)
            in if ustr ''Username (Email)'' = [] \<or> vs = [] then None
               else Some (firstNonEmpty vs))"
    by blast
  also have "\<dots> = Some (Str (ustr ''b@x.com''))"
    by (simp add: collisionExample_def a b resolveKey_Email resolveKey_username
        firstNonEmpty_def ustr_eq_iff ustr_Nil_iff)
  finally show ?thesis using a b by blast
qed

text \<open>
  The claim as the specification states it, that a key without an alias passes through
  unchanged, fails on a row with the keys "  " (two spaces) and " Foo " (with a space on
  each side): the first key is dropped with its value and the second is stored as "Foo".
\<close>

theorem alias_passthrough_counterexample:
  "normalizeKeys sampleEnv [(ustr ''  '', Str (ustr ''x'')), (ustr '' Foo '', Str (ustr ''y''))]
     = [(ustr ''Foo'', Str (ustr ''y''))]"
proof -
  have p: "trim (ustr ''  '') \<notin> set objectPrototypeKeys"
    by (simp add: trim_blank objectPrototypeKeys_eval)
  have 1: "normalizeStep sampleEnv [] (ustr ''  '', Str (ustr ''x'')) = []"
    using resolveKey_blank p by (rule normalizeStep_dropped)
  have "resolveKey sampleEnv (ustr '' Foo '') \<noteq> []"
    by (simp add: resolveKey_Foo ustr_Nil_iff)
  then have 2: "normalizeStep sampleEnv [] (ustr '' Foo '', Str (ustr ''y''))
      = [(ustr ''Foo'', Str (ustr ''y''))]"
    by (simp add: normalizeStep_kept resolveKey_Foo)
  show ?thesis
    by (simp only: normalizeKeys_def foldl_Cons foldl_Nil 1 2)
qed

section \<open>Aggregation\<close>

lemma pivotGroups_snoc: "pivotGroups f (data @ [d]) = pivotStep f (pivotGroups f data) d"
  by (simp add: pivotGroups_def)

lemma map_fst_update: "map fst (AList.update k v g) = setAdd (map fst g) k"
  by (induction g) (auto simp: setAdd_def)

lemma foldl_setAdd_snoc: "foldl setAdd s (xs @ [x]) = setAdd (foldl setAdd s xs) x"
  by simp

lemma statsOf_snoc_other:
  "groupKey f d \<noteq> k \<Longrightarrow> statsOf f k (data @ [d]) = statsOf f k data"
  by (simp add: statsOf_def)

lemma statsOf_snoc_same:
  "statsOf f (groupKey f d) (data @ [d]) =
     (let g = statsOf f (groupKey f d) data;
          g1 = g\<lparr>total := total g + 1\<rparr>
      in if 999 / 1000 \<le> Completion_Rate d then g1\<lparr>comp := comp g1 + 1\<rparr>
         else if 0 < Completion_Rate d \<and> Completion_Rate d < 999 / 1000
         then g1\<lparr>prog := prog g1 + 1\<rparr>
         else g1\<lparr>notS := notS g1 + 1\<rparr>)"
  by (simp add: statsOf_def Let_def)

lemma statsOf_unseen:
  "k \<notin> groupKey f ` set data \<Longrightarrow> statsOf f k data = \<lparr>total = 0, comp = 0, prog = 0, notS = 0\<rparr>"
proof -
  assume "k \<notin> groupKey f ` set data"
  then have "filter (\<lambda>d. groupKey f d = k \<and> P d) data = []" for P
    by (auto simp: filter_empty_conv)
  moreover from \<open>k \<notin> groupKey f ` set data\<close> have "filter (\<lambda>d. groupKey f d = k) data = []"
    by (auto simp: filter_empty_conv)
  ultimately show ?thesis by (simp add: statsOf_def)
qed

lemma pivotGroups_char:
  assumes "\<forall>d \<in> set data. groupKey f d \<notin> set objectPrototypeKeys"
  shows "map fst (pivotGroups f data) = foldl setAdd [] (map (groupKey f) data)
         \<and> (\<forall>k. map_of (pivotGroups f data) k =
                  (if k \<in> groupKey f ` set data then Some (statsOf f k data) else None))"
  using assms
proof (induction data rule: rev_induct)
  case Nil
  then show ?case by (simp add: pivotGroups_def)
next
  case (snoc d data)
  let ?g = "pivotGroups f data"
  let ?k = "groupKey f d"
  from snoc have keys: "map fst ?g = foldl setAdd [] (map (groupKey f) data)"
    and look: "\<And>k. map_of ?g k = (if k \<in> groupKey f ` set data then Some (statsOf f k data) else None)"
    by simp_all
  from snoc.prems have np: "?k \<notin> set objectPrototypeKeys" by simp
  have old: "(case map_of ?g ?k of None \<Rightarrow> \<lparr>total = 0, comp = 0, prog = 0, notS = 0\<rparr> | Some g \<Rightarrow> g)
               = statsOf f ?k data"
    by (simp add: look statsOf_unseen)
  have step: "pivotStep f ?g d = AList.update ?k (statsOf f ?k (data @ [d])) ?g"
    using np unfolding pivotStep_def Let_def old statsOf_snoc_same by simp
  have 1: "map fst (pivotGroups f (data @ [d])) = foldl setAdd [] (map (groupKey f) (data @ [d]))"
    unfolding pivotGroups_snoc step map_fst_update keys by simp
  have 2: "map_of (pivotGroups f (data @ [d])) k =
             (if k \<in> groupKey f ` set (data @ [d]) then Some (statsOf f k (data @ [d])) else None)" for k
    unfolding pivotGroups_snoc step
    by (cases "k = ?k") (auto simp: AList.update_conv' look statsOf_snoc_other)
  from 1 2 show ?case by blast
qed

lemma distinct_pivotGroups:
  "\<forall>d \<in> set data. groupKey f d \<notin> set objectPrototypeKeys \<Longrightarrow>
   distinct (map fst (pivotGroups f data))"
  using pivotGroups_char [of data f] by (simp add: distinct_foldl_setAdd)

lemma createPivotTable_lines:
  "createPivotTable f data =
     map pivotLine (sort_key (\<lambda>p. - int (total (snd p))) (objectEntries (pivotGroups f data)))"
  by (simp add: createPivotTable_def pivotLine_def case_prod_unfold)

lemma set_objectEntries: "set (objectEntries g) = set g"
  by (auto simp: objectEntries_def)

lemma pivot_sorted:
  "sorted (map (\<lambda>l. - int (fst (snd l))) (createPivotTable f data))"
proof -
  have "map (\<lambda>l. - int (fst (snd l))) (createPivotTable f data)
        = map (\<lambda>p. - int (total (snd p)))
            (sort_key (\<lambda>p. - int (total (snd p))) (objectEntries (pivotGroups f data)))"
    by (simp add: createPivotTable_lines pivotLine_def o_def)
  then show ?thesis by simp
qed

lemma pivot_stable:
  "filter (\<lambda>l. fst (snd l) = t) (createPivotTable f data)
     = map pivotLine (filter (\<lambda>p. total (snd p) = t) (objectEntries (pivotGroups f data)))"
proof -
  have "filter (\<lambda>l. fst (snd l) = t) (createPivotTable f data)
        = map pivotLine (filter (\<lambda>p. total (snd p) = t)
            (sort_key (\<lambda>p. - int (total (snd p))) (objectEntries (pivotGroups f data))))"
  proof -
    have "(\<lambda>l. fst (snd l) = t) \<circ> pivotLine = (\<lambda>p. total (snd p) = t)"
      by (simp add: fun_eq_iff pivotLine_def)
    then show ?thesis by (simp add: createPivotTable_lines filter_map)
  qed
  also have "filter (\<lambda>p. total (snd p) = t)
            (sort_key (\<lambda>p. - int (total (snd p))) (objectEntries (pivotGroups f data)))
        = filter (\<lambda>p. - int (total (snd p)) = - int t)
            (sort_key (\<lambda>p. - int (total (snd p))) (objectEntries (pivotGroups f data)))"
    by simp
  also have "\<dots> = filter (\<lambda>p. - int (total (snd p)) = - int t) (objectEntries (pivotGroups f data))"
    by (rule sort_key_stable)
  finally show ?thesis by simp
qed

lemma pivot_line_stats:
  assumes np: "\<forall>d \<in> set data. groupKey f d \<notin> set objectPrototypeKeys"
    and l: "l \<in> set (createPivotTable f data)"
  shows "fst l \<in> groupKey f ` set data \<and> l = pivotLine (fst l, statsOf f (fst l) data)"
proof -
  from l obtain p where p: "p \<in> set (pivotGroups f data)" and lp: "l = pivotLine p"
    by (auto simp: createPivotTable_lines set_objectEntries)
  have d: "distinct (map fst (pivotGroups f data))" using np by (rule distinct_pivotGroups)
  from p have "map_of (pivotGroups f data) (fst p) = Some (snd p)"
    using d map_of_is_SomeI [of "pivotGroups f data" "fst p" "snd p"] by simp
  with pivotGroups_char [OF np]
  have "fst p \<in> groupKey f ` set data \<and> snd p = statsOf f (fst p) data"
    by (auto split: if_splits)
  then show ?thesis unfolding lp by (cases p) (simp add: pivotLine_def)
qed

lemma distinct_split:
  "distinct (map fst g) \<Longrightarrow>
   distinct (map fst (filter (\<lambda>p. P (fst p)) g) @ map fst (filter (\<lambda>p. \<not> P (fst p)) g))"
  by (induction g) (auto simp: image_iff)

lemma map_fst_insort:
  "map fst (insort_key (\<lambda>p. h (fst p)) x xs) = insort_key h (fst x) (map fst xs)"
  by (induction xs) auto

lemma map_fst_sort_key:
  "map fst (sort_key (\<lambda>p. h (fst p)) xs) = sort_key h (map fst xs)"
  by (induction xs) (auto simp: map_fst_insort)

lemma map_fst_objectEntries:
  "map fst (objectEntries g) =
     sort_key indexValue (filter isArrayIndex (map fst g))
     @ filter (\<lambda>k. \<not> isArrayIndex k) (map fst g)"
  by (simp add: objectEntries_def map_fst_sort_key filter_map o_def)

lemma distinct_objectEntries:
  assumes "distinct (map fst g)"
  shows "distinct (map fst (objectEntries g))"
proof -
  from assms have "distinct (map fst g)" .
  then have a: "distinct (filter isArrayIndex (map fst g))"
    and b: "distinct (filter (\<lambda>k. \<not> isArrayIndex k) (map fst g))"
    by simp_all
  show ?thesis
    unfolding map_fst_objectEntries using a b by auto
qed

lemma distinct_map_fst_sort:
  "distinct (map fst (sort_key h xs)) = distinct (map fst xs)"
proof -
  have "distinct (map fst (insort_key h x ys)) = distinct (map fst (x # ys))" for x ys
    by (induction ys) (auto simp: set_insort_key)
  then show ?thesis
    by (induction xs) (simp_all add: set_sort)
qed

lemma pivot_names:
  assumes np: "\<forall>d \<in> set data. groupKey f d \<notin> set objectPrototypeKeys"
  shows "set (map fst (createPivotTable f data)) = groupKey f ` set data"
    and "distinct (map fst (createPivotTable f data))"
proof -
  have m: "map fst (createPivotTable f data)
        = map fst (sort_key (\<lambda>p. - int (total (snd p))) (objectEntries (pivotGroups f data)))"
    by (simp add: createPivotTable_lines pivotLine_def o_def)
  have k: "set (map fst (pivotGroups f data)) = groupKey f ` set data"
    using pivotGroups_char [OF np] by (simp add: set_foldl_setAdd)
  show "set (map fst (createPivotTable f data)) = groupKey f ` set data"
    unfolding m using k by (simp add: set_objectEntries)
  have d: "distinct (map fst (pivotGroups f data))" using np by (rule distinct_pivotGroups)
  show "distinct (map fst (createPivotTable f data))"
    unfolding m using d by (simp add: distinct_map_fst_sort distinct_objectEntries)
qed


lemma objectEntries_no_index:
  "\<forall>p \<in> set g. \<not> isArrayIndex (fst p) \<Longrightarrow> objectEntries g = g"
  by (simp add: objectEntries_def filter_empty_conv filter_id_conv)

lemma pivot_ties_first_seen:
  assumes np: "\<forall>d \<in> set data. groupKey f d \<notin> set objectPrototypeKeys"
    and ni: "\<forall>d \<in> set data. \<not> isArrayIndex (groupKey f d)"
  shows "map fst (filter (\<lambda>l. fst (snd l) = t) (createPivotTable f data))
       = filter (\<lambda>k. total (statsOf f k data) = t) (foldl setAdd [] (map (groupKey f) data))"
proof -
  let ?g = "pivotGroups f data"
  have keys: "map fst ?g = foldl setAdd [] (map (groupKey f) data)"
    using pivotGroups_char [OF np] by blast
  have d: "distinct (map fst ?g)" using np by (rule distinct_pivotGroups)
  have st: "snd p = statsOf f (fst p) data" if "p \<in> set ?g" for p
  proof -
    from that have "map_of ?g (fst p) = Some (snd p)"
      using d map_of_is_SomeI [of ?g "fst p" "snd p"] by simp
    with pivotGroups_char [OF np] show ?thesis by (auto split: if_splits)
  qed
  have mem: "fst p \<in> groupKey f ` set data" if "p \<in> set ?g" for p
  proof -
    from that have "fst p \<in> set (map fst ?g)" by simp
    then show ?thesis unfolding keys by (simp add: set_foldl_setAdd)
  qed
  have "\<not> isArrayIndex (fst p)" if "p \<in> set ?g" for p
  proof -
    from mem [OF that] obtain d where "d \<in> set data" "fst p = groupKey f d" by auto
    with ni show ?thesis by simp
  qed
  then have "\<forall>p \<in> set ?g. \<not> isArrayIndex (fst p)" by simp
  then have oe: "objectEntries ?g = ?g" by (rule objectEntries_no_index)
  have "map fst (filter (\<lambda>l. fst (snd l) = t) (createPivotTable f data))
        = map fst (filter (\<lambda>p. total (snd p) = t) ?g)"
    unfolding pivot_stable oe by (simp add: pivotLine_def o_def)
  also have "filter (\<lambda>p. total (snd p) = t) ?g
        = filter (\<lambda>p. total (statsOf f (fst p) data) = t) ?g"
    by (rule filter_cong) (simp_all add: st)
  also have "map fst (filter (\<lambda>p. total (statsOf f (fst p) data) = t) ?g)
        = filter (\<lambda>k. total (statsOf f k data) = t) (map fst ?g)"
    by (simp add: filter_map o_def)
  finally show ?thesis unfolding keys .
qed

text \<open>
  Claim C9, as the code has it. The summary counts the rows with a rate of at least 0.999
  as completed, those with a rate strictly between 0 and 0.999 as in progress and those
  with rate 0 as not started; the completion percentage is completed over total, and 0
  for no rows. A grouped breakdown names the group of an empty value "(Blank)", has one
  line for each group with the counters of its rows, and lists the lines by descending
  total. Lines with equal totals keep the order in which \<^verbatim>\<open>Object.entries\<close> enumerates the
  groups: the names that are array indices first, by ascending number, then the other
  names in the order of their first occurrence in the data. So ties keep the
  first-encountered order when no group name is an array index. (Stated for data in
  which no group value names a member of \<^verbatim>\<open>Object.prototype\<close>.)
\<close>

theorem aggregation:
  assumes "\<forall>d \<in> set data. groupKey f d \<notin> set objectPrototypeKeys"
  shows
    "summaryData data =
       [(length data, 1),
        (length (filter (\<lambda>d. 999 / 1000 \<le> Completion_Rate d) data),
         if data = [] then 0
         else of_nat (length (filter (\<lambda>d. 999 / 1000 \<le> Completion_Rate d) data))
              / of_nat (length data)),
        (length (filter (\<lambda>d. 0 < Completion_Rate d \<and> Completion_Rate d < 999 / 1000) data),
         if data = [] then 0
         else of_nat (length (filter (\<lambda>d. 0 < Completion_Rate d \<and>
                                               Completion_Rate d < 999 / 1000) data))
              / of_nat (length data)),
        (length (filter (\<lambda>d. Completion_Rate d = 0) data),
         if data = [] then 0
         else of_nat (length (filter (\<lambda>d. Completion_Rate d = 0) data)) / of_nat (length data))]
     \<and> (\<forall>d. groupKey f d = (if groupValue f d = [] then ustr ''(Blank)'' else groupValue f d))
     \<and> set (map fst (createPivotTable f data)) = groupKey f ` set data
     \<and> distinct (map fst (createPivotTable f data))
     \<and> (\<forall>l \<in> set (createPivotTable f data). l = pivotLine (fst l, statsOf f (fst l) data))
     \<and> sorted_wrt (\<lambda>a b. fst (snd b) \<le> fst (snd a)) (createPivotTable f data)
     \<and> (\<forall>t. filter (\<lambda>l. fst (snd l) = t) (createPivotTable f data)
              = map pivotLine
                  (filter (\<lambda>p. total (snd p) = t) (objectEntries (pivotGroups f data))))
     \<and> map fst (objectEntries (pivotGroups f data)) =
         sort_key indexValue
           (filter isArrayIndex (foldl setAdd [] (map (groupKey f) data)))
         @ filter (\<lambda>k. \<not> isArrayIndex k) (foldl setAdd [] (map (groupKey f) data))
     \<and> ((\<forall>d \<in> set data. \<not> isArrayIndex (groupKey f d)) \<longrightarrow>
          (\<forall>t. map fst (filter (\<lambda>l. fst (snd l) = t) (createPivotTable f data))
               = filter (\<lambda>k. total (statsOf f k data) = t)
                   (foldl setAdd [] (map (groupKey f) data))))"
proof -
  note np = assms
  have 1: "summaryData data =
       [(length data, 1),
        (length (filter (\<lambda>d. 999 / 1000 \<le> Completion_Rate d) data),
         if data = [] then 0
         else of_nat (length (filter (\<lambda>d. 999 / 1000 \<le> Completion_Rate d) data))
              / of_nat (length data)),
        (length (filter (\<lambda>d. 0 < Completion_Rate d \<and> Completion_Rate d < 999 / 1000) data),
         if data = [] then 0
         else of_nat (length (filter (\<lambda>d. 0 < Completion_Rate d \<and>
                                               Completion_Rate d < 999 / 1000) data))
              / of_nat (length data)),
        (length (filter (\<lambda>d. Completion_Rate d = 0) data),
         if data = [] then 0
         else of_nat (length (filter (\<lambda>d. Completion_Rate d = 0) data)) / of_nat (length data))]"
    by (simp add: summaryData_def Let_def)
  have 2: "\<forall>d. groupKey f d = (if groupValue f d = [] then ustr ''(Blank)'' else groupValue f d)"
    by (simp add: groupKey_def)
  note 3 = pivot_names(1) [OF np]
  note 4 = pivot_names(2) [OF np]
  have 5: "\<forall>l \<in> set (createPivotTable f data). l = pivotLine (fst l, statsOf f (fst l) data)"
    using pivot_line_stats [OF np] by blast
  have 6: "sorted_wrt (\<lambda>a b. fst (snd b) \<le> fst (snd a)) (createPivotTable f data)"
    using pivot_sorted [of f data] by (simp add: sorted_map)
  have 7: "\<forall>t. filter (\<lambda>l. fst (snd l) = t) (createPivotTable f data)
              = map pivotLine
                  (filter (\<lambda>p. total (snd p) = t) (objectEntries (pivotGroups f data)))"
    using pivot_stable by blast
  have 8: "map fst (objectEntries (pivotGroups f data)) =
         sort_key indexValue
           (filter isArrayIndex (foldl setAdd [] (map (groupKey f) data)))
         @ filter (\<lambda>k. \<not> isArrayIndex k) (foldl setAdd [] (map (groupKey f) data))"
    unfolding map_fst_objectEntries using pivotGroups_char [OF np] by simp
  have 9: "(\<forall>d \<in> set data. \<not> isArrayIndex (groupKey f d)) \<longrightarrow>
          (\<forall>t. map fst (filter (\<lambda>l. fst (snd l) = t) (createPivotTable f data))
               = filter (\<lambda>k. total (statsOf f k data) = t)
                   (foldl setAdd [] (map (groupKey f) data)))"
    using pivot_ties_first_seen [OF np] by blast
  from 1 2 3 4 5 6 7 8 9 show ?thesis by blast
qed

lemmas pivot_eval =
  createPivotTable_def pivotGroups_def pivotStep_def groupKey_def objectEntries_def
  isArrayIndex_def indexValue_def isDigit_def pivotRow_def objectPrototypeKeys_eval
  ustr_def Let_def

theorem aggregation_witness:
  "summaryData pivotExample = [(4, 1), (2, 1 / 2), (1, 1 / 4), (1, 1 / 4)]
   \<and> map fst (filter (\<lambda>l. fst (snd l) = 1) (createPivotTable ByDistrict pivotExample))
       = [ustr ''Jeddah'', ustr ''(Blank)'']
   \<and> sorted_wrt (\<lambda>a b. fst (snd b) \<le> fst (snd a)) (createPivotTable ByDistrict pivotExample)"
proof -
  have keys: "map (groupKey ByDistrict) pivotExample
      = [ustr ''Jeddah'', ustr ''(Blank)'', ustr ''Riyadh'', ustr ''Riyadh'']"
    by (simp add: pivotExample_def pivotRow_def groupKey_def ustr_def)
  have h: "\<forall>d \<in> set pivotExample. groupKey ByDistrict d \<notin> set objectPrototypeKeys"
    by (simp add: pivotExample_def pivotRow_def groupKey_def objectPrototypeKeys_eval ustr_def)
  have ni: "\<forall>d \<in> set pivotExample. \<not> isArrayIndex (groupKey ByDistrict d)"
    by (simp add: pivotExample_def pivotRow_def groupKey_def isArrayIndex_def isDigit_def
        ustr_def)
  note t = aggregation [OF h]
  from t have "summaryData pivotExample =
       [(length pivotExample, 1),
        (length (filter (\<lambda>d. 999 / 1000 \<le> Completion_Rate d) pivotExample),
         if pivotExample = [] then 0
         else of_nat (length (filter (\<lambda>d. 999 / 1000 \<le> Completion_Rate d) pivotExample))
              / of_nat (length pivotExample)),
        (length (filter (\<lambda>d. 0 < Completion_Rate d \<and> Completion_Rate d < 999 / 1000) pivotExample),
         if pivotExample = [] then 0
         else of_nat (length (filter (\<lambda>d. 0 < Completion_Rate d \<and>
                                               Completion_Rate d < 999 / 1000) pivotExample))
              / of_nat (length pivotExample)),
        (length (filter (\<lambda>d. Completion_Rate d = 0) pivotExample),
         if pivotExample = [] then 0
         else of_nat (length (filter (\<lambda>d. Completion_Rate d = 0) pivotExample))
              / of_nat (length pivotExample))]"
    by blast
  then have a: "summaryData pivotExample = [(4, 1), (2, 1 / 2), (1, 1 / 4), (1, 1 / 4)]"
    by (simp add: pivotExample_def pivotRow_def)
  from t ni have "map fst (filter (\<lambda>l. fst (snd l) = 1) (createPivotTable ByDistrict pivotExample))
       = filter (\<lambda>k. total (statsOf ByDistrict k pivotExample) = 1)
           (foldl setAdd [] (map (groupKey ByDistrict) pivotExample))"
    by blast
  also have "\<dots> = [ustr ''Jeddah'', ustr ''(Blank)'']"
    unfolding keys
    by (simp add: setAdd_def statsOf_def pivotExample_def pivotRow_def groupKey_def ustr_def)
  finally have b: "map fst (filter (\<lambda>l. fst (snd l) = 1) (createPivotTable ByDistrict pivotExample))
       = [ustr ''Jeddah'', ustr ''(Blank)'']" .
  from t have c: "sorted_wrt (\<lambda>a b. fst (snd b) \<le> fst (snd a))
      (createPivotTable ByDistrict pivotExample)"
    by blast
  from a b c show ?thesis by blast
qed

text \<open>
  The claim as the specification states it, that lines with equal totals keep the
  first-encountered order, fails on two rows whose Districts are "2" and "1": both groups
  have total 1, the District "2" is met first, and the table lists "1" first.
\<close>

theorem pivot_tie_counterexample:
  "map District [pivotRow (ustr ''2'') 1, pivotRow (ustr ''1'') 0] = [ustr ''2'', ustr ''1'']
   \<and> createPivotTable ByDistrict [pivotRow (ustr ''2'') 1, pivotRow (ustr ''1'') 0]
       = [(ustr ''1'', 1, 0, 0, 1, 0), (ustr ''2'', 1, 1, 0, 0, 1)]"
  by (simp add: pivot_eval)


end
